theory Spec2Isabelle
  imports Main "HOL-Library.Sublist" "HOL-Library.Finite_Map"
begin

section \<open>Virtual network peering: the refresh function of the create wait loop\<close>

text \<open>
  Source: \<^verbatim>\<open>internal/services/network/virtual_network_peering_resource.go\<close>.

  An error value of the remote client. \<open>Error\<close> is the text \<^verbatim>\<open>err.Error()\<close>;
  \<open>is_retryable\<close> is the value of \<^verbatim>\<open>utils.ResponseErrorIsRetryable(err)\<close>, a helper
  defined outside the files verified here; its value is carried by the error as a
  parameter of the model.
\<close>

record go_error =
  Error :: string
  is_retryable :: bool

record http_response =
  StatusCode :: int

text \<open>
  The future returned by \<^verbatim>\<open>client.CreateOrUpdate\<close> and \<^verbatim>\<open>client.Delete\<close>: \<open>Response\<close> is
  \<^verbatim>\<open>future.Response()\<close> (\<open>None\<close> is the nil pointer) and \<open>completion\<close> is what
  \<^verbatim>\<open>future.WaitForCompletionRef\<close> returns (\<open>None\<close> is the nil error).
\<close>

record future =
  Response :: "http_response option"
  completion :: "go_error option"

text \<open>What one call of \<^verbatim>\<open>client.CreateOrUpdate\<close> returns: the future and the error.\<close>

record create_reply =
  reply_future :: future
  reply_err :: "go_error option"

text \<open>\<^verbatim>\<open>strings.Contains(s, substr)\<close>: \<open>substr\<close> occurs in \<open>s\<close> as a contiguous run.\<close>

fun strings_Contains :: "string \<Rightarrow> string \<Rightarrow> bool" where
  "strings_Contains [] substr = (substr = [])"
| "strings_Contains (c # s) substr = (prefix substr (c # s) \<or> strings_Contains s substr)"

text \<open>
  The refresh function, applied to what the remote answers to its call of
  \<^verbatim>\<open>CreateOrUpdate\<close>. The triple is \<^verbatim>\<open>(result, state, err)\<close>; the result is the same
  string as the state on every path.
\<close>

type_synonym refresh_result = "string \<times> string \<times> go_error option"

definition virtualNetworkPeeringCreateFunc :: "create_reply \<Rightarrow> refresh_result" where
  "virtualNetworkPeeringCreateFunc r =
     (case reply_err r of
        Some err \<Rightarrow>
          if is_retryable err then (''Pending'', ''Pending'', Some err)
          else if (case Response (reply_future r) of
                     None \<Rightarrow> False
                   | Some resp \<Rightarrow> StatusCode resp = 400
                       \<and> strings_Contains (Error err) ''ReferencedResourceNotProvisioned'')
          then (''Pending'', ''Pending'', Some err)
          else (''Failed'', ''Failed'', Some err)
      | None \<Rightarrow>
          (case completion (reply_future r) of
             Some err \<Rightarrow> (''Failure'', ''Failure'', Some err)
           | None \<Rightarrow> (''Succeeded'', ''Succeeded'', None)))"

text \<open>The state component of a refresh result.\<close>

definition refresh_state :: "refresh_result \<Rightarrow> string" where
  "refresh_state r = fst (snd r)"

text \<open>A reply that failed with a 4xx response.\<close>

definition failed_with_4xx :: "create_reply \<Rightarrow> bool" where
  "failed_with_4xx r =
     (reply_err r \<noteq> None \<and>
      (case Response (reply_future r) of
         None \<Rightarrow> False
       | Some resp \<Rightarrow> 400 \<le> StatusCode resp \<and> StatusCode resp < 500))"

section \<open>The wait loop\<close>

text \<open>
  The configuration built by \<^verbatim>\<open>resourceVirtualNetworkPeeringCreate\<close>. \<open>Refresh\<close> is the
  refresh closure: \<open>Refresh conf k\<close> is what its \<open>k\<close>-th call returns. Durations are in
  seconds; \<open>Timeout\<close> is \<^verbatim>\<open>time.Until(timeout)\<close>, the time left until the deadline of the
  context when the configuration is built.
\<close>

record StateChangeConf =
  Pending :: "string list"
  Target :: "string list"
  Refresh :: "nat \<Rightarrow> refresh_result"
  MinTimeout :: nat
  Timeout :: nat

definition peering_conf :: "(nat \<Rightarrow> create_reply) \<Rightarrow> nat \<Rightarrow> StateChangeConf" where
  "peering_conf replies remaining =
     \<lparr>Pending = [''Pending''], Target = [''Succeeded''],
      Refresh = (\<lambda>k. virtualNetworkPeeringCreateFunc (replies k)),
      MinTimeout = 15, Timeout = remaining\<rparr>"

text \<open>
  Modelled from the spec: how a wait of \<^verbatim>\<open>WaitForStateContext\<close> ends (the spec's typed
  result: success, fatal error or timeout error). The target state was reached (with the result of the last refresh), a
  refresh reported a state that is neither pending nor the target (a fatal error, with the
  state and the error of that refresh), or the deadline passed.
\<close>

datatype wait_result =
    Reached string
  | RefreshFailed string "go_error option"
  | DeadlineExceeded

text \<open>
  Modelled from the spec: the wait loop \<^verbatim>\<open>StateChangeConf.WaitForStateContext\<close> of the
  vendored plugin SDK, whose source lies outside the files verified here. The spec's
  algorithm: before each pause the deadline is checked, and the loop ends with a timeout
  error once it has passed; otherwise the loop pauses for the minimum poll interval, issues
  one status request and classifies the answer: the target state ends the loop with
  success, a pending state continues it (whether or not the refresh carried an error), any
  other state ends it with a fatal error. The pause is a suspension that the deadline
  cancels, and polling stops once the deadline has passed: when the deadline passes during
  the pause, the loop ends with the timeout error and issues no request.

  \<open>now\<close> is the time elapsed since the wait began and \<open>issued\<close> the times at which the
  status requests so far were issued, so that the next request is the one with number
  \<open>length issued\<close>; \<open>latency k\<close> is the time request \<open>k\<close> takes. The result is the
  outcome and the times at which all status requests were issued; \<open>None\<close> is a loop that
  never ends.
\<close>

partial_function (option) WaitForState ::
  "StateChangeConf \<Rightarrow> (nat \<Rightarrow> nat) \<Rightarrow> nat \<Rightarrow> nat list \<Rightarrow> (wait_result \<times> nat list) option" where
  "WaitForState conf latency now issued =
     (if Timeout conf \<le> now then Some (DeadlineExceeded, issued)
      else let wake = now + MinTimeout conf in
        if Timeout conf < wake then Some (DeadlineExceeded, issued)
        else (case Refresh conf (length issued) of (result, state, err) \<Rightarrow>
          if state \<in> set (Target conf) then Some (Reached result, issued @ [wake])
          else if state \<in> set (Pending conf)
            then WaitForState conf latency (wake + latency (length issued)) (issued @ [wake])
          else Some (RefreshFailed state err, issued @ [wake])))"

declare WaitForState.simps [code]

text \<open>
  The wait as \<^verbatim>\<open>resourceVirtualNetworkPeeringCreate\<close> starts it, at time 0 with no request
  issued yet: how it ended and how many status requests it issued.
\<close>

definition wait_from_start ::
  "(nat \<Rightarrow> nat) \<Rightarrow> StateChangeConf \<Rightarrow> (wait_result \<times> nat) option" where
  "wait_from_start latency conf =
     map_option (\<lambda>(outcome, issued). (outcome, length issued)) (WaitForState conf latency 0 [])"

text \<open>
  What the outcome of a wait that started at request \<open>k\<close> and issued \<open>snd r\<close> requests in
  all says about the last status request.
\<close>

definition outcome_matches :: "StateChangeConf \<Rightarrow> nat \<Rightarrow> wait_result \<times> nat \<Rightarrow> bool" where
  "outcome_matches conf k r =
     (case fst r of
        DeadlineExceeded \<Rightarrow> k \<le> snd r \<and> (k < snd r \<longrightarrow>
            refresh_state (Refresh conf (snd r - 1)) \<in> set (Pending conf)
            \<and> refresh_state (Refresh conf (snd r - 1)) \<notin> set (Target conf))
      | Reached res \<Rightarrow> k < snd r \<and> res = fst (Refresh conf (snd r - 1))
            \<and> refresh_state (Refresh conf (snd r - 1)) \<in> set (Target conf)
      | RefreshFailed st err \<Rightarrow> k < snd r \<and> st = refresh_state (Refresh conf (snd r - 1))
            \<and> err = snd (snd (Refresh conf (snd r - 1)))
            \<and> st \<notin> set (Target conf) \<and> st \<notin> set (Pending conf))"

text \<open>
  Modelled from the spec: the states of the poller's state machine, \<^verbatim>\<open>Pending\<close> (the initial
  state), \<^verbatim>\<open>Succeeded\<close> and \<^verbatim>\<open>Failed\<close>, and the state that a state string reported by the
  refresh function stands for, classified as the wait loop classifies it: the target state
  is success, a pending state is pending, and every other string is a failure.
\<close>

datatype wait_state = StatePending | StateSucceeded | StateFailed

definition state_of :: "StateChangeConf \<Rightarrow> string \<Rightarrow> wait_state" where
  "state_of conf state =
     (if state \<in> set (Target conf) then StateSucceeded
      else if state \<in> set (Pending conf) then StatePending
      else StateFailed)"

section \<open>Virtual network peering: Create, Read, Update and Delete\<close>

text \<open>
  The parsed resource IDs of the \<^verbatim>\<open>parse\<close> package (the structs are declared outside the
  files verified here; the fields are the ones the resource functions read).
\<close>

record peering_id =
  peering_SubscriptionId :: string
  peering_ResourceGroup :: string
  peering_VirtualNetworkName :: string
  peering_Name :: string

record vnet_id =
  vnet_SubscriptionId :: string
  vnet_ResourceGroup :: string
  vnet_Name :: string

text \<open>
  \<^verbatim>\<open>network.VirtualNetworkPeeringPropertiesFormat\<close> of the Azure SDK: the fields the
  resource functions read or write. Pointers are options. The remaining fields of the SDK
  type live in the extension of the record (\<open>properties_format.more\<close>).
\<close>

record sub_resource =
  ID :: "string option"

record properties_format =
  AllowVirtualNetworkAccess :: "bool option"
  AllowForwardedTraffic :: "bool option"
  AllowGatewayTransit :: "bool option"
  UseRemoteGateways :: "bool option"
  RemoteVirtualNetwork :: "sub_resource option"

text \<open>
  What one call of \<^verbatim>\<open>client.Get\<close> returns: the properties of the response, the error, and
  \<open>was_not_found\<close>, the value of \<^verbatim>\<open>utils.ResponseWasNotFound(resp.Response)\<close> (a helper
  defined outside the files verified here).
\<close>

record 'z get_reply =
  get_properties :: "'z properties_format_scheme option"
  get_err :: "go_error option"
  was_not_found :: bool

text \<open>
  \<^verbatim>\<open>pluginsdk.ResourceData\<close>: the ID, what \<^verbatim>\<open>d.Get\<close> returns for string and boolean
  keys, what \<^verbatim>\<open>d.HasChange\<close> returns, and the calls of \<^verbatim>\<open>d.Set\<close> in order.
\<close>

datatype set_value = StringValue string | BoolPtrValue "bool option"

record resource_data =
  Id :: string
  Get_string :: "string \<Rightarrow> string"
  Get_bool :: "string \<Rightarrow> bool"
  HasChange :: "string \<Rightarrow> bool"
  sets :: "(string \<times> set_value) list"

definition SetId :: "resource_data \<Rightarrow> string \<Rightarrow> resource_data" where
  "SetId d v = d\<lparr>Id := v\<rparr>"

definition Set :: "resource_data \<Rightarrow> string \<Rightarrow> set_value \<Rightarrow> resource_data" where
  "Set d key v = d\<lparr>sets := sets d @ [(key, v)]\<rparr>"

text \<open>
  The functions of the \<^verbatim>\<open>parse\<close> and \<^verbatim>\<open>features\<close> packages and the account of the
  client, all defined outside the files verified here: parameters of the model.
  \<open>VirtualNetworkId_ID\<close> and \<open>VirtualNetworkPeeringId_ID\<close> are the \<^verbatim>\<open>ID()\<close> methods.
\<close>

record meta =
  VirtualNetworkPeeringID :: "string \<Rightarrow> go_error + peering_id"
  VirtualNetworkPeeringId_ID :: "peering_id \<Rightarrow> string"
  VirtualNetworkID :: "string \<Rightarrow> go_error + vnet_id"
  VirtualNetworkIDInsensitively :: "string \<Rightarrow> go_error + vnet_id"
  VirtualNetworkId_ID :: "vnet_id \<Rightarrow> string"
  ThreePointOh :: bool
  Account_SubscriptionId :: string

text \<open>
  The errors the resource functions return: an error passed on as it is, an error wrapped
  by \<^verbatim>\<open>fmt.Errorf\<close> with the text before the ID, the wrapped error of parsing the remote
  virtual network ID, the nil properties of Update, \<^verbatim>\<open>tf.ImportAsExistsError\<close>, and the
  wrapped error of the create wait.
\<close>

datatype op_error =
    Plain go_error
  | Wrapped string peering_id go_error
  | WrappedParse string go_error
  | PropertiesNil peering_id
  | ImportAsExists string string
  | WaitFailed peering_id wait_result

text \<open>
  What a resource function does to the world, in order: it locks and unlocks
  \<^verbatim>\<open>peerMutex\<close> and sends requests. \<open>CreateOrUpdate_request\<close> carries the properties of
  the model it submits.
\<close>

datatype 'm event =
    Lock | Unlock | Get_request | CreateOrUpdate_request 'm | WaitForCompletion | Delete_request

text \<open>The result of a resource function: the error, the resource data, the events.\<close>

record 'm outcome =
  returned :: "op_error option"
  data :: resource_data
  events :: "'m event list"

text \<open>\<^verbatim>\<open>resourceVirtualNetworkPeeringRead\<close>; \<open>resp\<close> is the answer to its \<^verbatim>\<open>client.Get\<close>.\<close>

definition resourceVirtualNetworkPeeringRead ::
  "meta \<Rightarrow> 'z get_reply \<Rightarrow> resource_data \<Rightarrow> 'm outcome" where
  "resourceVirtualNetworkPeeringRead m resp d =
     (case VirtualNetworkPeeringID m (Id d) of
        Inl e \<Rightarrow> \<lparr>returned = Some (Plain e), data = d, events = []\<rparr>
      | Inr pid \<Rightarrow>
         (case get_err resp of
            Some e \<Rightarrow>
              if was_not_found resp
              then \<lparr>returned = None, data = SetId d '''', events = [Get_request]\<rparr>
              else \<lparr>returned = Some (Wrapped ''retrieving'' pid e), data = d, events = [Get_request]\<rparr>
          | None \<Rightarrow>
              let d = Set d ''name'' (StringValue (peering_Name pid));
                  d = Set d ''virtual_network_id'' (StringValue (VirtualNetworkId_ID m
                        \<lparr>vnet_SubscriptionId = peering_SubscriptionId pid,
                         vnet_ResourceGroup = peering_ResourceGroup pid,
                         vnet_Name = peering_VirtualNetworkName pid\<rparr>));
                  d = (if \<not> ThreePointOh m
                       then Set (Set d ''resource_group_name''
                                   (StringValue (peering_ResourceGroup pid)))
                              ''virtual_network_name''
                              (StringValue (peering_VirtualNetworkName pid))
                       else d)
              in (case get_properties resp of
                    None \<Rightarrow> \<lparr>returned = None, data = d, events = [Get_request]\<rparr>
                  | Some peer \<Rightarrow>
                      let d = Set d ''allow_virtual_network_access''
                                (BoolPtrValue (AllowVirtualNetworkAccess peer));
                          d = Set d ''allow_forwarded_traffic''
                                (BoolPtrValue (AllowForwardedTraffic peer));
                          d = Set d ''allow_gateway_transit''
                                (BoolPtrValue (AllowGatewayTransit peer));
                          d = Set d ''use_remote_gateways''
                                (BoolPtrValue (UseRemoteGateways peer))
                      in (case (case RemoteVirtualNetwork peer of
                                  None \<Rightarrow> None | Some sr \<Rightarrow> ID sr) of
                            None \<Rightarrow>
                              \<lparr>returned = None,
                               data = Set d ''remote_virtual_network_id'' (StringValue ''''),
                               events = [Get_request]\<rparr>
                          | Some rid \<Rightarrow>
                              (case VirtualNetworkIDInsensitively m rid of
                                 Inl e \<Rightarrow>
                                   \<lparr>returned = Some (WrappedParse rid e), data = d,
                                    events = [Get_request]\<rparr>
                               | Inr parsed \<Rightarrow>
                                   \<lparr>returned = None,
                                    data = Set d ''remote_virtual_network_id''
                                             (StringValue (VirtualNetworkId_ID m parsed)),
                                    events = [Get_request]\<rparr>)))))"

text \<open>
  \<^verbatim>\<open>peerMutex.Lock()\<close> followed by \<^verbatim>\<open>defer peerMutex.Unlock()\<close>: the rest of the function
  runs between the two, whichever way it returns. \<open>after\<close> puts events before the rest.
\<close>

definition locked :: "'m outcome \<Rightarrow> 'm outcome" where
  "locked rest = rest\<lparr>events := Lock # events rest @ [Unlock]\<rparr>"

definition after :: "'m event list \<Rightarrow> 'm outcome \<Rightarrow> 'm outcome" where
  "after evs rest = rest\<lparr>events := evs @ events rest\<rparr>"

text \<open>The four conditional assignments of \<^verbatim>\<open>resourceVirtualNetworkPeeringUpdate\<close>.\<close>

definition changed_properties ::
  "resource_data \<Rightarrow> 'z properties_format_scheme \<Rightarrow> 'z properties_format_scheme" where
  "changed_properties d props =
     (let props = (if HasChange d ''allow_forwarded_traffic''
                   then props\<lparr>AllowForwardedTraffic := Some (Get_bool d ''allow_forwarded_traffic'')\<rparr>
                   else props);
          props = (if HasChange d ''allow_gateway_transit''
                   then props\<lparr>AllowGatewayTransit := Some (Get_bool d ''allow_gateway_transit'')\<rparr>
                   else props);
          props = (if HasChange d ''allow_virtual_network_access''
                   then props\<lparr>AllowVirtualNetworkAccess :=
                                 Some (Get_bool d ''allow_virtual_network_access'')\<rparr>
                   else props);
          props = (if HasChange d ''use_remote_gateways''
                   then props\<lparr>UseRemoteGateways := Some (Get_bool d ''use_remote_gateways'')\<rparr>
                   else props)
      in props)"

text \<open>
  \<^verbatim>\<open>resourceVirtualNetworkPeeringUpdate\<close>: \<open>existing\<close> answers its \<^verbatim>\<open>client.Get\<close>,
  \<open>submit\<close> its \<^verbatim>\<open>client.CreateOrUpdate\<close>, \<open>refreshed\<close> the \<^verbatim>\<open>client.Get\<close> of the
  final Read.
\<close>

definition resourceVirtualNetworkPeeringUpdate ::
  "meta \<Rightarrow> 'z get_reply \<Rightarrow> create_reply \<Rightarrow> 'z get_reply \<Rightarrow> resource_data
     \<Rightarrow> ('z properties_format_scheme) outcome" where
  "resourceVirtualNetworkPeeringUpdate m existing submit refreshed d =
     (case VirtualNetworkPeeringID m (Id d) of
        Inl e \<Rightarrow> \<lparr>returned = Some (Plain e), data = d, events = []\<rparr>
      | Inr pid \<Rightarrow> locked (after [Get_request]
         (case get_err existing of
            Some e \<Rightarrow> \<lparr>returned = Some (Wrapped ''retrieving'' pid e), data = d, events = []\<rparr>
          | None \<Rightarrow>
             (case get_properties existing of
                None \<Rightarrow> \<lparr>returned = Some (PropertiesNil pid), data = d, events = []\<rparr>
              | Some fetched \<Rightarrow>
                  let props = changed_properties d fetched
                  in after [CreateOrUpdate_request props]
                     (case reply_err submit of
                        Some e \<Rightarrow> \<lparr>returned = Some (Wrapped ''updating'' pid e), data = d, events = []\<rparr>
                      | None \<Rightarrow> after [WaitForCompletion]
                         (case completion (reply_future submit) of
                            Some e \<Rightarrow>
                              \<lparr>returned = Some (Wrapped ''updating'' pid e), data = d, events = []\<rparr>
                          | None \<Rightarrow> resourceVirtualNetworkPeeringRead m refreshed d))))))"

text \<open>\<^verbatim>\<open>resourceVirtualNetworkPeeringDelete\<close>; \<open>deletion\<close> answers \<^verbatim>\<open>client.Delete\<close>.\<close>

definition resourceVirtualNetworkPeeringDelete ::
  "meta \<Rightarrow> create_reply \<Rightarrow> resource_data \<Rightarrow> 'm outcome" where
  "resourceVirtualNetworkPeeringDelete m deletion d =
     (case VirtualNetworkPeeringID m (Id d) of
        Inl e \<Rightarrow> \<lparr>returned = Some (Plain e), data = d, events = []\<rparr>
      | Inr pid \<Rightarrow> locked (after [Delete_request]
         (case reply_err deletion of
            Some e \<Rightarrow> \<lparr>returned = Some (Wrapped ''deleting'' pid e), data = d, events = []\<rparr>
          | None \<Rightarrow> after [WaitForCompletion]
             (case completion (reply_future deletion) of
                Some e \<Rightarrow>
                  \<lparr>returned = Some (Wrapped ''waiting for deletion of'' pid e), data = d, events = []\<rparr>
              | None \<Rightarrow> \<lparr>returned = None, data = d, events = []\<rparr>))))"

text \<open>
  The requests of one call of the refresh function: \<^verbatim>\<open>CreateOrUpdate\<close>, and
  \<^verbatim>\<open>WaitForCompletionRef\<close> when the former returned no error.
\<close>

definition refresh_events :: "'m \<Rightarrow> create_reply \<Rightarrow> 'm event list" where
  "refresh_events model reply =
     CreateOrUpdate_request model # (if reply_err reply = None then [WaitForCompletion] else [])"

text \<open>
  \<^verbatim>\<open>resourceVirtualNetworkPeeringCreate\<close>. The wait loop \<open>WaitForStateContext\<close> is a
  parameter: it returns how the wait ended and how many times it called the refresh
  function (\<open>None\<close>: it never returns). \<open>existing\<close> answers the first \<^verbatim>\<open>client.Get\<close>,
  \<open>replies k\<close> the \<open>k\<close>-th \<^verbatim>\<open>CreateOrUpdate\<close>, \<open>refreshed\<close> the \<^verbatim>\<open>client.Get\<close> of the
  final Read; \<open>remaining\<close> is the time left until the deadline of the context.
\<close>

definition resourceVirtualNetworkPeeringCreate ::
  "(StateChangeConf \<Rightarrow> (wait_result \<times> nat) option) \<Rightarrow> meta \<Rightarrow> 'z get_reply
     \<Rightarrow> (nat \<Rightarrow> create_reply) \<Rightarrow> nat \<Rightarrow> 'z get_reply \<Rightarrow> resource_data
     \<Rightarrow> properties_format outcome option" where
  "resourceVirtualNetworkPeeringCreate WaitForStateContext m existing replies remaining refreshed d =
     (let virtualNetworkIdRaw = Get_string d ''virtual_network_id'';
          virtualNetworkIdRaw =
            (if virtualNetworkIdRaw = ''''
             then VirtualNetworkId_ID m
                    \<lparr>vnet_SubscriptionId = Account_SubscriptionId m,
                     vnet_ResourceGroup = Get_string d ''resource_group_name'',
                     vnet_Name = Get_string d ''virtual_network_name''\<rparr>
             else virtualNetworkIdRaw)
      in case VirtualNetworkID m virtualNetworkIdRaw of
           Inl e \<Rightarrow> Some \<lparr>returned = Some (Plain e), data = d, events = []\<rparr>
         | Inr virtualNetworkId \<Rightarrow>
             let pid = \<lparr>peering_SubscriptionId = vnet_SubscriptionId virtualNetworkId,
                        peering_ResourceGroup = vnet_ResourceGroup virtualNetworkId,
                        peering_VirtualNetworkName = vnet_Name virtualNetworkId,
                        peering_Name = Get_string d ''name''\<rparr>;
                 model = \<lparr>AllowVirtualNetworkAccess =
                            Some (Get_bool d ''allow_virtual_network_access''),
                          AllowForwardedTraffic = Some (Get_bool d ''allow_forwarded_traffic''),
                          AllowGatewayTransit = Some (Get_bool d ''allow_gateway_transit''),
                          UseRemoteGateways = Some (Get_bool d ''use_remote_gateways''),
                          RemoteVirtualNetwork =
                            Some \<lparr>ID = Some (Get_string d ''remote_virtual_network_id'')\<rparr>\<rparr>
             in map_option (after [Get_request])
                  (if get_err existing \<noteq> None \<and> \<not> was_not_found existing
                   then Some \<lparr>returned = Some (Wrapped ''checking for presence of existing'' pid
                                              (the (get_err existing))),
                              data = d, events = []\<rparr>
                   else if \<not> was_not_found existing
                   then Some \<lparr>returned = Some (ImportAsExists ''azurerm_virtual_network_peering''
                                              (VirtualNetworkPeeringId_ID m pid)),
                              data = d, events = []\<rparr>
                   else
                     (case WaitForStateContext (peering_conf replies remaining) of
                        None \<Rightarrow> None
                      | Some (res, n) \<Rightarrow> Some (locked
                          (after (concat (map (\<lambda>k. refresh_events model (replies k)) [0..<n]))
                             (case res of
                                Reached _ \<Rightarrow>
                                  resourceVirtualNetworkPeeringRead m refreshed
                                    (SetId d (VirtualNetworkPeeringId_ID m pid))
                              | _ \<Rightarrow> \<lparr>returned = Some (WaitFailed pid res), data = d,
                                       events = []\<rparr>))))))"

section \<open>Long-running operations of the vendored SDK: submit, then poll\<close>

text \<open>
  Source:
  \<^verbatim>\<open>vendor/github.com/hashicorp/go-azure-sdk/resource-manager/recoveryservicessiterecovery/2022-10-01/replicationprotecteditems/method_updatemobilityservice.go\<close>.
\<close>

text \<open>Modelled from the spec: the states of an operation (\<^verbatim>\<open>PollState\<close>).\<close>

datatype PollState = InProgress | Succeeded | Failed | Cancelled

text \<open>
  A response of the transport: the status code, the status marker of the body (\<open>None\<close>:
  the body has no status field), the raw body (\<open>None\<close>: no body) and the operation-status
  URL of the headers.
\<close>

record 'raw sdk_response = http_response +
  status_marker :: "PollState option"
  body :: "'raw option"
  operation_url :: "string option"

text \<open>\<^verbatim>\<open>client.RequestOptions\<close>, as the operation fills it in.\<close>

record RequestOptions =
  ContentType :: string
  ExpectedStatusCodes :: "int list"
  HttpMethod :: string
  Path :: string

text \<open>
  The functions of the SDK's base client that the operation calls; all of them are
  defined outside the files verified here, so they are parameters. \<open>PollUntilDone\<close> returns its error and the
  number of status requests it issued (\<open>None\<close>: it never returns).
\<close>

record ('req, 'inp, 'raw, 'model, 'poller) sdk_client =
  NewRequest :: "RequestOptions \<Rightarrow> go_error + 'req"
  Marshal :: "'req \<Rightarrow> 'inp \<Rightarrow> go_error + 'req"
  Execute :: "'req \<Rightarrow> 'raw sdk_response option \<times> go_error option"
  Unmarshal :: "'raw sdk_response \<Rightarrow> go_error + 'model option"
  PollerFromResponse :: "'raw sdk_response \<Rightarrow> go_error + 'poller"
  PollUntilDone :: "'poller \<Rightarrow> (go_error option \<times> nat) option"

text \<open>
  \<^verbatim>\<open>UpdateMobilityServiceOperationResponse\<close> (the \<^verbatim>\<open>OData\<close> field travels with the
  response).
\<close>

record ('raw, 'model, 'poller) UpdateMobilityServiceOperationResponse =
  Poller :: "'poller option"
  HttpResponse :: "'raw sdk_response option"
  Model :: "'model option"

text \<open>A panic of the Go runtime.\<close>

datatype panic = NilPointerDereference

text \<open>
  \<^verbatim>\<open>UpdateMobilityService\<close>: its request options, then the function, which returns the
  result and the error; \<open>id_ID\<close> is \<^verbatim>\<open>id.ID()\<close>. Every early \<^verbatim>\<open>return\<close> hands back the
  result as far as it has been filled in. A nil response that comes without an error is
  dereferenced by \<^verbatim>\<open>resp.Unmarshal\<close>: a panic.
\<close>

definition UpdateMobilityService_options :: "string \<Rightarrow> RequestOptions" where
  "UpdateMobilityService_options id_ID =
     \<lparr>ContentType = ''application/json; charset=utf-8'',
      ExpectedStatusCodes = [202, 200],
      HttpMethod = ''POST'',
      Path = id_ID @ ''/updateMobilityService''\<rparr>"

definition UpdateMobilityService ::
  "('req, 'inp, 'raw, 'model, 'poller) sdk_client \<Rightarrow> string \<Rightarrow> 'inp
     \<Rightarrow> panic + ('raw, 'model, 'poller) UpdateMobilityServiceOperationResponse
                \<times> go_error option" where
  "UpdateMobilityService c id_ID input =
     (let opts = UpdateMobilityService_options id_ID;
          result = \<lparr>Poller = None, HttpResponse = None, Model = None\<rparr>
      in case NewRequest c opts of
           Inl e \<Rightarrow> Inr (result, Some e)
         | Inr req \<Rightarrow>
            (case Marshal c req input of
               Inl e \<Rightarrow> Inr (result, Some e)
             | Inr req \<Rightarrow>
                (case Execute c req of (resp, exec_err) \<Rightarrow>
                   let result = result\<lparr>HttpResponse := resp\<rparr>
                   in (case exec_err of
                         Some e \<Rightarrow> Inr (result, Some e)
                       | None \<Rightarrow>
                          (case resp of
                             None \<Rightarrow> Inl NilPointerDereference
                           | Some resp \<Rightarrow>
                              (case Unmarshal c resp of
                                 Inl e \<Rightarrow> Inr (result, Some e)
                               | Inr model \<Rightarrow>
                                  let result = result\<lparr>Model := model\<rparr>
                                  in (case PollerFromResponse c resp of
                                        Inl e \<Rightarrow> Inr (result, Some e)
                                      | Inr p \<Rightarrow>
                                          Inr (result\<lparr>Poller := Some p\<rparr>, None))))))))"

text \<open>
  The errors of \<^verbatim>\<open>UpdateMobilityServiceThenPoll\<close>: the two \<^verbatim>\<open>fmt.Errorf\<close> wrappers.
\<close>

datatype then_poll_error = Performing go_error | Polling go_error

text \<open>
  \<^verbatim>\<open>UpdateMobilityServiceThenPoll\<close>: the error it returns and the number of status
  requests the poller issued; \<open>None\<close> when the poller never returns. The poller of a result
  is \<open>None\<close> while the field has its zero value, which cannot be polled.
\<close>

definition UpdateMobilityServiceThenPoll ::
  "('req, 'inp, 'raw, 'model, 'poller) sdk_client \<Rightarrow> string \<Rightarrow> 'inp
     \<Rightarrow> (panic + then_poll_error option \<times> nat) option" where
  "UpdateMobilityServiceThenPoll c id_ID input =
     (case UpdateMobilityService c id_ID input of
        Inl p \<Rightarrow> Some (Inl p)
      | Inr (result, Some e) \<Rightarrow> Some (Inr (Some (Performing e), 0))
      | Inr (result, None) \<Rightarrow>
          (case Poller result of
             None \<Rightarrow> Some (Inl NilPointerDereference)
           | Some p \<Rightarrow>
              (case PollUntilDone c p of
                 None \<Rightarrow> None
               | Some (Some e, n) \<Rightarrow> Some (Inr (Some (Polling e), n))
               | Some (None, n) \<Rightarrow> Some (Inr (None, n)))))"

subsection \<open>The poller\<close>

text \<open>
  Modelled from the spec: the operation handle behind \<^verbatim>\<open>pollers.Poller\<close> (the spec's
  \<^verbatim>\<open>Operation\<close>), whose source lies outside the files verified here: where to ask for the status, the
  current state and the terminal payload.
\<close>

record 'raw Operation =
  op_target :: string
  op_state :: PollState
  op_payload :: "'raw option"

text \<open>Modelled from the spec: the terminal status codes of its convention, 200 and 201.\<close>

definition terminal_status_code :: "int \<Rightarrow> bool" where
  "terminal_status_code code = (code = 200 \<or> code = 201)"

text \<open>
  Modelled from the spec: \<^verbatim>\<open>resourcemanager.PollerFromResponse\<close>, whose source lies outside the
  files verified here. A response with a terminal status code is in progress only if it carries
  the explicit non-terminal status marker; otherwise the operation is done and the body is
  its payload. A response that is not done is polled at the operation-status URL of the
  headers or, without one, at the resource's own path.
\<close>

definition PollerFromResponse_spec ::
  "string \<Rightarrow> 'raw sdk_response \<Rightarrow> go_error + 'raw Operation" where
  "PollerFromResponse_spec resource_path resp =
     (if terminal_status_code (StatusCode resp) \<and> status_marker resp \<noteq> Some InProgress
      then Inr \<lparr>op_target = resource_path, op_state = Succeeded, op_payload = body resp\<rparr>
      else Inr \<lparr>op_target = (case operation_url resp of
                                     Some url \<Rightarrow> url | None \<Rightarrow> resource_path),
                op_state = InProgress, op_payload = None\<rparr>)"

text \<open>
  Modelled from the spec: what one status request returns, no answer at all (a transport
  error) or a response, and the five classes of the spec's classification.
\<close>

datatype 'raw status_check = TransportError | Answer "'raw sdk_response"

datatype classification =
  Retryable | FatalRequest | TerminalSuccess | TerminalFailure | NonTerminal

text \<open>
  Modelled from the spec: the classification of a status response. A transport error or a
  5xx is retryable; a 4xx is fatal; otherwise the status marker decides, and a response
  without a marker is a terminal success when its status code is terminal.
\<close>

definition classify :: "'raw status_check \<Rightarrow> classification" where
  "classify check =
     (case check of
        TransportError \<Rightarrow> Retryable
      | Answer resp \<Rightarrow>
          if 500 \<le> StatusCode resp \<and> StatusCode resp < 600 then Retryable
          else if 400 \<le> StatusCode resp \<and> StatusCode resp < 500 then FatalRequest
          else (case status_marker resp of
                  Some InProgress \<Rightarrow> NonTerminal
                | Some Succeeded \<Rightarrow> TerminalSuccess
                | Some Failed \<Rightarrow> TerminalFailure
                | Some Cancelled \<Rightarrow> TerminalFailure
                | None \<Rightarrow> if terminal_status_code (StatusCode resp)
                           then TerminalSuccess else NonTerminal))"

text \<open>
  Modelled from the spec: the result of polling, the terminal payload or one of the three
  errors of the spec's taxonomy.
\<close>

datatype 'raw poll_result =
    Done "'raw option"
  | FatalRequestError int
  | RemoteOperationFailed PollState
  | PollDeadlineExceeded

text \<open>
  Modelled from the spec: the remote as the poller sees it: the answer to the \<open>k\<close>-th
  status request, the time that request takes, the poll interval and the deadline.
\<close>

record 'raw poll_env =
  checks :: "nat \<Rightarrow> 'raw status_check"
  check_latency :: "nat \<Rightarrow> nat"
  poll_interval :: nat
  deadline :: nat

text \<open>
  Modelled from the spec: the poll loop of \<^verbatim>\<open>Poller.PollUntilDone\<close>, whose source lies outside
  the files verified here. Before each pause the deadline is checked; then the loop pauses
  for the poll interval (a pause that the deadline cancels), issues one status request and
  classifies the answer.
\<close>

partial_function (option) poll_loop ::
  "'raw poll_env \<Rightarrow> nat \<Rightarrow> nat \<Rightarrow> ('raw poll_result \<times> nat) option" where
  "poll_loop env now k =
     (if deadline env \<le> now then Some (PollDeadlineExceeded, k)
      else let wake = now + poll_interval env in
        if deadline env < wake then Some (PollDeadlineExceeded, k)
        else (case classify (checks env k) of
              Retryable \<Rightarrow> poll_loop env (wake + check_latency env k) (Suc k)
            | NonTerminal \<Rightarrow> poll_loop env (wake + check_latency env k) (Suc k)
            | FatalRequest \<Rightarrow>
                Some (FatalRequestError
                        (case checks env k of Answer resp \<Rightarrow> StatusCode resp | _ \<Rightarrow> 0), Suc k)
            | TerminalSuccess \<Rightarrow>
                Some (Done (case checks env k of Answer resp \<Rightarrow> body resp | _ \<Rightarrow> None), Suc k)
            | TerminalFailure \<Rightarrow>
                Some (RemoteOperationFailed
                        (case checks env k of
                           Answer resp \<Rightarrow> (case status_marker resp of
                                             Some s \<Rightarrow> s | None \<Rightarrow> Failed)
                         | _ \<Rightarrow> Failed), Suc k)))"

declare poll_loop.simps [code]

text \<open>
  Modelled from the spec: polling an operation until it is done. An operation that is
  already in a terminal state is not polled at all.
\<close>

definition PollUntilDone_spec ::
  "'raw poll_env \<Rightarrow> 'raw Operation \<Rightarrow> ('raw poll_result \<times> nat) option" where
  "PollUntilDone_spec env op =
     (case op_state op of
        InProgress \<Rightarrow> poll_loop env 0 0
      | Succeeded \<Rightarrow> Some (Done (op_payload op), 0)
      | Failed \<Rightarrow> Some (RemoteOperationFailed Failed, 0)
      | Cancelled \<Rightarrow> Some (RemoteOperationFailed Cancelled, 0))"

text \<open>
  Modelled from the spec: the error \<^verbatim>\<open>PollUntilDone\<close> returns for a result of polling.
\<close>

definition poll_error :: "'raw poll_result \<Rightarrow> go_error option" where
  "poll_error r =
     (case r of
        Done _ \<Rightarrow> None
      | FatalRequestError code \<Rightarrow> Some \<lparr>Error = ''fatal request error'', is_retryable = False\<rparr>
      | RemoteOperationFailed s \<Rightarrow>
          Some \<lparr>Error = ''remote operation failed'', is_retryable = False\<rparr>
      | PollDeadlineExceeded \<Rightarrow> Some \<lparr>Error = ''deadline exceeded'', is_retryable = False\<rparr>)"

text \<open>
  The SDK client whose poller is the model above; the other functions are those of the
  client \<open>c\<close>.
\<close>

definition with_spec_poller ::
  "('req, 'inp, 'raw, 'model, 'p) sdk_client \<Rightarrow> string \<Rightarrow> 'raw poll_env
     \<Rightarrow> ('req, 'inp, 'raw, 'model, 'raw Operation) sdk_client" where
  "with_spec_poller c resource_path env =
     \<lparr>NewRequest = NewRequest c, Marshal = Marshal c, Execute = Execute c,
      Unmarshal = Unmarshal c,
      PollerFromResponse = PollerFromResponse_spec resource_path,
      PollUntilDone = (\<lambda>op. map_option (\<lambda>(r, n). (poll_error r, n)) (PollUntilDone_spec env op))\<rparr>"

section \<open>Event Grid models: discriminator-tagged variants\<close>

text \<open>
  Sources: \<^verbatim>\<open>NumberInRangeAdvancedFilter\<close> (\<^verbatim>\<open>unnamed/part_001\<close>) and, under
  \<^verbatim>\<open>internal/services/eventgrid/sdk/2020-10-15-preview/eventsubscriptions\<close>,
  \<^verbatim>\<open>model_storageblobdeadletterdestination.go\<close> and
  \<^verbatim>\<open>model_stringcontainsadvancedfilter.go\<close>. The \<^verbatim>\<open>MarshalJSON\<close> methods call Go's
  \<^verbatim>\<open>encoding/json\<close>, which is modelled here as far as these types use it.
\<close>

text \<open>A \<^verbatim>\<open>float64\<close>: a finite number (mantissa and binary exponent) or one of the specials.\<close>

datatype float64 = Finite int int | NaN | PosInf | NegInf

definition is_finite :: "float64 \<Rightarrow> bool" where
  "is_finite f = (case f of Finite m e \<Rightarrow> True | _ \<Rightarrow> False)"

text \<open>
  A JSON document: the text that \<^verbatim>\<open>json.Marshal\<close> writes, up to white space and the order
  of the members of an object. Its numbers are finite: JSON has no text for NaN and the
  infinities. Strings are taken to be valid UTF-8, which the encoder writes unchanged.
\<close>

datatype json =
    JNull
  | JBool bool
  | JNumber int int
  | JString string
  | JArray "json list"
  | JObject "(string, json) fmap"

text \<open>
  The errors of \<^verbatim>\<open>encoding/json\<close>: \<^verbatim>\<open>UnsupportedValueError\<close> (a NaN or an infinity cannot
  be encoded) and \<^verbatim>\<open>UnmarshalTypeError\<close> (a document that is not an object cannot be
  decoded into a map).
\<close>

datatype json_error = UnsupportedValueError float64 | UnmarshalTypeError

text \<open>Encoding the elements of a slice in order; the first error ends it.\<close>

fun traverse :: "('a \<Rightarrow> 'e + 'b) \<Rightarrow> 'a list \<Rightarrow> 'e + 'b list" where
  "traverse f [] = Inr []"
| "traverse f (x # xs) =
     (case f x of
        Inl e \<Rightarrow> Inl e
      | Inr y \<Rightarrow> (case traverse f xs of Inl e \<Rightarrow> Inl e | Inr ys \<Rightarrow> Inr (y # ys)))"

definition marshal_float64 :: "float64 \<Rightarrow> json_error + json" where
  "marshal_float64 f =
     (case f of Finite m e \<Rightarrow> Inr (JNumber m e) | _ \<Rightarrow> Inl (UnsupportedValueError f))"

definition marshal_string :: "string \<Rightarrow> json_error + json" where
  "marshal_string s = Inr (JString s)"

text \<open>A slice is \<open>None\<close> (the nil slice, written \<^verbatim>\<open>null\<close>) or a list (written as an array).\<close>

definition marshal_slice ::
  "('a \<Rightarrow> json_error + json) \<Rightarrow> 'a list option \<Rightarrow> json_error + json" where
  "marshal_slice enc s =
     (case s of
        None \<Rightarrow> Inr JNull
      | Some xs \<Rightarrow> (case traverse enc xs of Inl e \<Rightarrow> Inl e | Inr js \<Rightarrow> Inr (JArray js)))"

text \<open>
  A pointer field tagged \<^verbatim>\<open>omitempty\<close>: the nil pointer writes no member, any other
  pointer the member with the encoding of what it points to.
\<close>

definition omitempty_field ::
  "string \<Rightarrow> ('a \<Rightarrow> json_error + json) \<Rightarrow> 'a option
     \<Rightarrow> json_error + (string \<times> json) list" where
  "omitempty_field name enc ptr =
     (case ptr of
        None \<Rightarrow> Inr []
      | Some v \<Rightarrow> (case enc v of Inl e \<Rightarrow> Inl e | Inr j \<Rightarrow> Inr [(name, j)]))"

text \<open>\<^verbatim>\<open>json.Marshal\<close> of a struct: the members of its fields in the order of declaration.\<close>

definition marshal_struct :: "(json_error + (string \<times> json) list) list \<Rightarrow> json_error + json" where
  "marshal_struct encoded_fields =
     (case traverse (\<lambda>field. field) encoded_fields of
        Inl e \<Rightarrow> Inl e
      | Inr members \<Rightarrow> Inr (JObject (fmap_of_list (concat members))))"

text \<open>
  \<^verbatim>\<open>json.Unmarshal\<close> into a \<^verbatim>\<open>map[string]interface{}\<close> variable that is nil: an object
  gives the map of its members, \<^verbatim>\<open>null\<close> leaves the map nil (\<open>None\<close>), any other document
  is a type error.
\<close>

definition json_Unmarshal_map :: "json \<Rightarrow> json_error + (string, json) fmap option" where
  "json_Unmarshal_map encoded =
     (case encoded of
        JObject members \<Rightarrow> Inr (Some members)
      | JNull \<Rightarrow> Inr None
      | _ \<Rightarrow> Inl UnmarshalTypeError)"

text \<open>
  \<^verbatim>\<open>json.Marshal\<close> of a map of decoded documents: every value of type \<open>json\<close> can be
  written, so it returns no error.
\<close>

definition json_Marshal_map :: "(string, json) fmap \<Rightarrow> json_error + json" where
  "json_Marshal_map decoded = Inr (JObject decoded)"

text \<open>
  The errors of a \<^verbatim>\<open>MarshalJSON\<close> method: the three \<^verbatim>\<open>fmt.Errorf\<close> wrappers with the name
  of the type, and the panic of an assignment to a nil map.
\<close>

datatype marshal_error =
    Marshaling string json_error
  | Unmarshaling string json_error
  | ReMarshaling string json_error
  | NilMapPanic

text \<open>
  The body the \<^verbatim>\<open>MarshalJSON\<close> methods share, after \<^verbatim>\<open>json.Marshal(wrapped)\<close> has
  returned \<open>wrapped\<close>: decode into a map, set the discriminator, encode the map.
\<close>

definition with_discriminator ::
  "string \<Rightarrow> string \<Rightarrow> string \<Rightarrow> json_error + json \<Rightarrow> marshal_error + json" where
  "with_discriminator type_name key val wrapped =
     (case wrapped of
        Inl e \<Rightarrow> Inl (Marshaling type_name e)
      | Inr encoded \<Rightarrow>
         (case json_Unmarshal_map encoded of
            Inl e \<Rightarrow> Inl (Unmarshaling type_name e)
          | Inr None \<Rightarrow> Inl NilMapPanic
          | Inr (Some decoded) \<Rightarrow>
             (case json_Marshal_map (fmupd key (JString val) decoded) of
                Inl e \<Rightarrow> Inl (ReMarshaling type_name e)
              | Inr encoded \<Rightarrow> Inr encoded)))"

record NumberInRangeAdvancedFilter =
  NumberInRange_Values :: "float64 list option list option option"
  NumberInRange_Key :: "string option"

definition NumberInRangeAdvancedFilter_MarshalJSON ::
  "NumberInRangeAdvancedFilter \<Rightarrow> marshal_error + json" where
  "NumberInRangeAdvancedFilter_MarshalJSON s =
     with_discriminator ''NumberInRangeAdvancedFilter'' ''operatorType'' ''NumberInRange''
       (marshal_struct
          [omitempty_field ''values'' (marshal_slice (marshal_slice marshal_float64))
             (NumberInRange_Values s),
           omitempty_field ''key'' marshal_string (NumberInRange_Key s)])"

record StringContainsAdvancedFilter =
  StringContains_Values :: "string list option option"
  StringContains_Key :: "string option"

definition StringContainsAdvancedFilter_MarshalJSON ::
  "StringContainsAdvancedFilter \<Rightarrow> marshal_error + json" where
  "StringContainsAdvancedFilter_MarshalJSON s =
     with_discriminator ''StringContainsAdvancedFilter'' ''operatorType'' ''StringContains''
       (marshal_struct
          [omitempty_field ''values'' (marshal_slice marshal_string) (StringContains_Values s),
           omitempty_field ''key'' marshal_string (StringContains_Key s)])"

text \<open>
  \<^verbatim>\<open>StorageBlobDeadLetterDestinationProperties\<close> is declared outside the files verified here:
  its type
  \<open>'p\<close> and its encoding \<open>marshal_properties\<close> are parameters.
\<close>

record 'p StorageBlobDeadLetterDestination =
  Properties :: "'p option"

definition StorageBlobDeadLetterDestination_MarshalJSON ::
  "('p \<Rightarrow> json_error + json) \<Rightarrow> 'p StorageBlobDeadLetterDestination \<Rightarrow> marshal_error + json" where
  "StorageBlobDeadLetterDestination_MarshalJSON marshal_properties s =
     with_discriminator ''StorageBlobDeadLetterDestination'' ''endpointType'' ''StorageBlob''
       (marshal_struct [omitempty_field ''properties'' marshal_properties (Properties s)])"

text \<open>Every number of the values of a filter is finite.\<close>

definition values_finite :: "NumberInRangeAdvancedFilter \<Rightarrow> bool" where
  "values_finite s =
     (case NumberInRange_Values s of
        None \<Rightarrow> True
      | Some None \<Rightarrow> True
      | Some (Some rows) \<Rightarrow>
          list_all (\<lambda>row. case row of None \<Rightarrow> True | Some fs \<Rightarrow> list_all is_finite fs) rows)"

section \<open>Resource IDs: Location Topic Type\<close>

text \<open>
  Source: \<^verbatim>\<open>unnamed/part_002\<close> (package \<^verbatim>\<open>eventsubscriptions\<close>, the Location Topic Type
  ID).
\<close>

record LocationTopicTypeId =
  SubscriptionId :: string
  Location :: string
  TopicTypeName :: string

definition NewLocationTopicTypeID :: "string \<Rightarrow> string \<Rightarrow> string \<Rightarrow> LocationTopicTypeId" where
  "NewLocationTopicTypeID subscriptionId location topicTypeName =
     \<lparr>SubscriptionId = subscriptionId, Location = location, TopicTypeName = topicTypeName\<rparr>"

text \<open>
  The segments of \<^verbatim>\<open>resourceids\<close>, as \<^verbatim>\<open>Segments()\<close> builds them: the name, the fixed
  value of a static or resource provider segment, and the example value.
\<close>

datatype Segment =
    StaticSegment string string string
  | SubscriptionIdSegment string string
  | ResourceProviderSegment string string string
  | UserSpecifiedSegment string string

definition LocationTopicTypeId_Segments :: "Segment list" where
  "LocationTopicTypeId_Segments =
     [StaticSegment ''staticSubscriptions'' ''subscriptions'' ''subscriptions'',
      SubscriptionIdSegment ''subscriptionId'' ''12345678-1234-9876-4563-123456789012'',
      StaticSegment ''staticProviders'' ''providers'' ''providers'',
      ResourceProviderSegment ''staticMicrosoftEventGrid'' ''Microsoft.EventGrid''
        ''Microsoft.EventGrid'',
      StaticSegment ''staticLocations'' ''locations'' ''locations'',
      UserSpecifiedSegment ''location'' ''locationValue'',
      StaticSegment ''staticTopicTypes'' ''topicTypes'' ''topicTypes'',
      UserSpecifiedSegment ''topicTypeName'' ''topicTypeValue'']"

text \<open>\<^verbatim>\<open>ID()\<close>: the format string with the three values filled in.\<close>

definition LocationTopicTypeId_ID :: "LocationTopicTypeId \<Rightarrow> string" where
  "LocationTopicTypeId_ID x =
     ''/subscriptions/'' @ SubscriptionId x @ ''/providers/Microsoft.EventGrid/locations/''
       @ Location x @ ''/topicTypes/'' @ TopicTypeName x"

text \<open>\<^verbatim>\<open>strings.Split\<close> on one separator character.\<close>

fun split_on :: "char \<Rightarrow> string \<Rightarrow> string list" where
  "split_on sep [] = [[]]"
| "split_on sep (c # cs) =
     (if c = sep then [] # split_on sep cs
      else (case split_on sep cs of
              [] \<Rightarrow> [[c]]
            | piece # pieces \<Rightarrow> (c # piece) # pieces))"

text \<open>Letter case: the lower-case form of an ASCII letter, and equality up to it.\<close>

definition to_lower :: "char \<Rightarrow> char" where
  "to_lower c =
     (let n = (of_char c :: nat) in if 65 \<le> n \<and> n \<le> 90 then char_of (n + 32) else c)"

definition EqualFold :: "string \<Rightarrow> string \<Rightarrow> bool" where
  "EqualFold s t = (map to_lower s = map to_lower t)"

text \<open>The errors of parsing an ID.\<close>

datatype parse_error =
    EmptyInput
  | MissingLeadingSlash
  | SegmentCountMismatch
  | SegmentMismatch string string
  | EmptySegment string
  | Parsing string parse_error
  | SegmentNotFound string string

text \<open>
  Modelled from the spec: matching one piece of the path against a segment of
  \<^verbatim>\<open>resourceids\<close> (the source of the parser lies outside the files verified here). A static or resource
  provider segment accepts its fixed value, up to letter case when parsing insensitively,
  and is recorded with the fixed value; a subscription ID or user-specified segment
  accepts any value that is not empty.
\<close>

definition parse_segment ::
  "bool \<Rightarrow> Segment \<Rightarrow> string \<Rightarrow> parse_error + string \<times> string" where
  "parse_segment insensitively seg piece =
     (case seg of
        StaticSegment name fixed example \<Rightarrow>
          if piece = fixed \<or> (insensitively \<and> EqualFold piece fixed) then Inr (name, fixed)
          else Inl (SegmentMismatch name piece)
      | ResourceProviderSegment name fixed example \<Rightarrow>
          if piece = fixed \<or> (insensitively \<and> EqualFold piece fixed) then Inr (name, fixed)
          else Inl (SegmentMismatch name piece)
      | SubscriptionIdSegment name example \<Rightarrow>
          if piece = [] then Inl (EmptySegment name) else Inr (name, piece)
      | UserSpecifiedSegment name example \<Rightarrow>
          if piece = [] then Inl (EmptySegment name) else Inr (name, piece))"

text \<open>
  Modelled from the spec: the pieces of the path are matched against the segments one by
  one, and there must be as many pieces as segments.
\<close>

fun parse_segments ::
  "bool \<Rightarrow> Segment list \<Rightarrow> string list \<Rightarrow> parse_error + (string \<times> string) list" where
  "parse_segments insensitively [] [] = Inr []"
| "parse_segments insensitively (seg # segs) (piece # pieces) =
     (case parse_segment insensitively seg piece of
        Inl e \<Rightarrow> Inl e
      | Inr entry \<Rightarrow>
          (case parse_segments insensitively segs pieces of
             Inl e \<Rightarrow> Inl e
           | Inr entries \<Rightarrow> Inr (entry # entries)))"
| "parse_segments insensitively _ _ = Inl SegmentCountMismatch"

text \<open>\<^verbatim>\<open>resourceids.ParseResult\<close>: the parsed segments by name and the input.\<close>

record ParseResult =
  Parsed :: "(string \<times> string) list"
  RawInput :: string

text \<open>
  Modelled from the spec: \<^verbatim>\<open>Parser.Parse\<close> of \<^verbatim>\<open>resourceids\<close>, for the parser built by
  \<^verbatim>\<open>NewParserFromResourceIdType\<close> from the segments of an ID type. The path is formed of
  segments that each begin with a slash.
\<close>

definition Parse :: "Segment list \<Rightarrow> string \<Rightarrow> bool \<Rightarrow> parse_error + ParseResult" where
  "Parse segments input insensitively =
     (if input = [] then Inl EmptyInput
      else (case split_on CHR ''/'' input of
              [] # pieces \<Rightarrow>
                (case parse_segments insensitively segments pieces of
                   Inl e \<Rightarrow> Inl e
                 | Inr entries \<Rightarrow> Inr \<lparr>Parsed = entries, RawInput = input\<rparr>)
            | _ \<Rightarrow> Inl MissingLeadingSlash))"

text \<open>
  What \<^verbatim>\<open>ParseLocationTopicTypeID\<close> and \<^verbatim>\<open>ParseLocationTopicTypeIDInsensitively\<close> do
  with the result of the parser: the same in both.
\<close>

definition LocationTopicTypeId_of_parsed ::
  "string \<Rightarrow> parse_error + ParseResult \<Rightarrow> parse_error + LocationTopicTypeId" where
  "LocationTopicTypeId_of_parsed input result =
     (case result of
        Inl e \<Rightarrow> Inl (Parsing input e)
      | Inr parsed \<Rightarrow>
         (case map_of (Parsed parsed) ''subscriptionId'' of
            None \<Rightarrow> Inl (SegmentNotFound ''subscriptionId'' input)
          | Some subscriptionId \<Rightarrow>
             (case map_of (Parsed parsed) ''location'' of
                None \<Rightarrow> Inl (SegmentNotFound ''location'' input)
              | Some location \<Rightarrow>
                 (case map_of (Parsed parsed) ''topicTypeName'' of
                    None \<Rightarrow> Inl (SegmentNotFound ''topicTypeName'' input)
                  | Some topicTypeName \<Rightarrow>
                      Inr \<lparr>SubscriptionId = subscriptionId, Location = location,
                           TopicTypeName = topicTypeName\<rparr>))))"

definition ParseLocationTopicTypeID :: "string \<Rightarrow> parse_error + LocationTopicTypeId" where
  "ParseLocationTopicTypeID input =
     LocationTopicTypeId_of_parsed input (Parse LocationTopicTypeId_Segments input False)"

definition ParseLocationTopicTypeIDInsensitively ::
  "string \<Rightarrow> parse_error + LocationTopicTypeId" where
  "ParseLocationTopicTypeIDInsensitively input =
     LocationTopicTypeId_of_parsed input (Parse LocationTopicTypeId_Segments input True)"

text \<open>A well-formed segment value: not empty and without a path separator.\<close>

definition well_formed_value :: "string \<Rightarrow> bool" where
  "well_formed_value v = (v \<noteq> [] \<and> CHR ''/'' \<notin> set v)"

section \<open>The peering mutex\<close>

text \<open>
  \<^verbatim>\<open>peerMutex\<close> is the one process-wide \<^verbatim>\<open>sync.Mutex\<close> of the peering resource. The
  remote-mutating requests are \<^verbatim>\<open>CreateOrUpdate\<close> and \<^verbatim>\<open>Delete\<close>.
\<close>

fun mutating :: "'m event \<Rightarrow> bool" where
  "mutating (CreateOrUpdate_request model) = True"
| "mutating Delete_request = True"
| "mutating e = False"

text \<open>
  Where one call stands with respect to the mutex: it has not locked it, it holds it, or
  it has unlocked it.
\<close>

datatype lock_state = Free | Held | Released

text \<open>
  The lock discipline of one call, event by event; \<open>None\<close> is a violation. Before the
  lock is taken only \<^verbatim>\<open>Get\<close> is allowed: no remote-mutating request and no wait for
  completion. While the lock is held everything is allowed but locking again. After the
  unlock nothing is allowed: the unlock is the last thing a call does, once.
\<close>

fun discipline_step :: "lock_state \<Rightarrow> 'm event \<Rightarrow> lock_state option" where
  "discipline_step Free Lock = Some Held"
| "discipline_step Free Get_request = Some Free"
| "discipline_step Free e = None"
| "discipline_step Held Lock = None"
| "discipline_step Held Unlock = Some Released"
| "discipline_step Held e = Some Held"
| "discipline_step Released e = None"

fun discipline :: "lock_state \<Rightarrow> 'm event list \<Rightarrow> lock_state option" where
  "discipline q [] = Some q"
| "discipline q (e # es) =
     (case discipline_step q e of None \<Rightarrow> None | Some q' \<Rightarrow> discipline q' es)"

text \<open>
  The events of a call that has returned keep the discipline: it never took the lock, or
  it took it and released it.
\<close>

definition lock_disciplined :: "'m event list \<Rightarrow> bool" where
  "lock_disciplined evs =
     (discipline Free evs = Some Free \<or> discipline Free evs = Some Released)"

text \<open>The event lists of the calls of Create (that return), Update and Delete.\<close>

inductive peering_call :: "properties_format event list \<Rightarrow> bool" where
  Create:
    "resourceVirtualNetworkPeeringCreate WaitForStateContext m
        (existing :: unit get_reply) replies remaining (refreshed :: unit get_reply) d = Some r
     \<Longrightarrow> peering_call (events r)"
| Update:
    "peering_call (events (resourceVirtualNetworkPeeringUpdate m
        (existing :: unit get_reply) submit (refreshed :: unit get_reply) d))"
| Delete:
    "peering_call (events (resourceVirtualNetworkPeeringDelete m deletion d))"

text \<open>
  A schedule is what concurrent calls do, in the order in which it happens: each event
  with the number of the call that does it. \<open>events_of t s\<close> are the events of call \<open>t\<close>.
\<close>

definition events_of :: "nat \<Rightarrow> (nat \<times> 'm event) list \<Rightarrow> 'm event list" where
  "events_of t s = map snd (filter (\<lambda>x. fst x = t) s)"

text \<open>
  \<^verbatim>\<open>sync.Mutex\<close>: \<open>holder\<close> is the call that holds the mutex. \<^verbatim>\<open>Lock\<close> goes through only
  when nobody holds it, \<^verbatim>\<open>Unlock\<close> is done by the holder; \<open>None\<close> is a step the mutex
  does not allow at this point of the schedule.
\<close>

fun mutex_step :: "nat option \<Rightarrow> nat \<times> 'm event \<Rightarrow> nat option option" where
  "mutex_step holder (t, Lock) = (if holder = None then Some (Some t) else None)"
| "mutex_step holder (t, Unlock) = (if holder = Some t then Some None else None)"
| "mutex_step holder (t, e) = Some holder"

fun mutex_run :: "nat option \<Rightarrow> (nat \<times> 'm event) list \<Rightarrow> bool" where
  "mutex_run holder [] = True"
| "mutex_run holder (x # s) =
     (case mutex_step holder x of None \<Rightarrow> False | Some holder' \<Rightarrow> mutex_run holder' s)"

text \<open>
  The calls that send the remote-mutating requests of a schedule, in order, each run of
  requests of one call counted once. The requests of the calls do not interleave when no
  call occurs twice.
\<close>

definition mutating_runs :: "(nat \<times> 'm event) list \<Rightarrow> nat list" where
  "mutating_runs s = remdups_adj (map fst (filter (\<lambda>x. mutating (snd x)) s))"

definition serialised :: "(nat \<times> 'm event) list \<Rightarrow> bool" where
  "serialised s = distinct (mutating_runs s)"

section \<open>Example inputs\<close>

text \<open>Replies of the remote to \<^verbatim>\<open>CreateOrUpdate\<close>.\<close>

definition not_provisioned_reply :: create_reply where
  "not_provisioned_reply =
     \<lparr>reply_future = \<lparr>Response = Some \<lparr>StatusCode = 400\<rparr>, completion = None\<rparr>,
      reply_err = Some \<lparr>Error = ''Code=ReferencedResourceNotProvisioned'',
                         is_retryable = False\<rparr>\<rparr>"

definition forbidden_reply :: create_reply where
  "forbidden_reply =
     \<lparr>reply_future = \<lparr>Response = Some \<lparr>StatusCode = 403\<rparr>, completion = None\<rparr>,
      reply_err = Some \<lparr>Error = ''AuthorizationFailed'', is_retryable = False\<rparr>\<rparr>"

definition wait_failed_reply :: create_reply where
  "wait_failed_reply =
     \<lparr>reply_future = \<lparr>Response = Some \<lparr>StatusCode = 201\<rparr>,
                       completion = Some \<lparr>Error = ''Code=InternalServerError'',
                                           is_retryable = False\<rparr>\<rparr>,
      reply_err = None\<rparr>"

definition succeeded_reply :: create_reply where
  "succeeded_reply =
     \<lparr>reply_future = \<lparr>Response = Some \<lparr>StatusCode = 200\<rparr>, completion = None\<rparr>,
      reply_err = None\<rparr>"

definition connection_reset_reply :: create_reply where
  "connection_reset_reply =
     \<lparr>reply_future = \<lparr>Response = None, completion = None\<rparr>,
      reply_err = Some \<lparr>Error = ''connection reset by peer'', is_retryable = True\<rparr>\<rparr>"

definition server_error_reply :: create_reply where
  "server_error_reply =
     \<lparr>reply_future = \<lparr>Response = Some \<lparr>StatusCode = 503\<rparr>, completion = None\<rparr>,
      reply_err = Some \<lparr>Error = ''StatusCode=503'', is_retryable = False\<rparr>\<rparr>"

text \<open>A remote that fails twice with a retryable error and then succeeds.\<close>

definition flaky_replies :: "nat \<Rightarrow> create_reply" where
  "flaky_replies k = (if k < 2 then connection_reset_reply else succeeded_reply)"

text \<open>
  A remote that answers the first request with a 503 whose error is not retryable and
  succeeds from then on, and one that fails twice with a retryable error and then answers
  with that 503.
\<close>

definition server_error_then_success :: "nat \<Rightarrow> create_reply" where
  "server_error_then_success k = (if k = 0 then server_error_reply else succeeded_reply)"

definition reset_then_server_error :: "nat \<Rightarrow> create_reply" where
  "reset_then_server_error k = (if k < 2 then connection_reset_reply else server_error_reply)"

text \<open>A peering, the package functions and the resource data of the examples.\<close>

definition example_peering :: peering_id where
  "example_peering =
     \<lparr>peering_SubscriptionId = ''sub'', peering_ResourceGroup = ''rg'',
      peering_VirtualNetworkName = ''vnet1'', peering_Name = ''peer1''\<rparr>"

definition example_vnet :: vnet_id where
  "example_vnet =
     \<lparr>vnet_SubscriptionId = ''sub'', vnet_ResourceGroup = ''rg'', vnet_Name = ''vnet1''\<rparr>"

definition example_meta :: meta where
  "example_meta =
     \<lparr>VirtualNetworkPeeringID = (\<lambda>s. Inr example_peering),
      VirtualNetworkPeeringId_ID = (\<lambda>p. ''/peerings/'' @ peering_Name p),
      VirtualNetworkID = (\<lambda>s. Inr example_vnet),
      VirtualNetworkIDInsensitively = (\<lambda>s. Inr example_vnet),
      VirtualNetworkId_ID = (\<lambda>v. ''/vnets/'' @ vnet_Name v),
      ThreePointOh = False,
      Account_SubscriptionId = ''sub''\<rparr>"

definition example_data :: resource_data where
  "example_data =
     \<lparr>Id = ''/peerings/peer1'',
      Get_string = (\<lambda>key. if key = ''name'' then ''peer1'' else ''/vnets/vnet1''),
      Get_bool = (\<lambda>key. True),
      HasChange = (\<lambda>key. key = ''allow_gateway_transit''),
      sets = []\<rparr>"

definition example_properties :: properties_format where
  "example_properties =
     \<lparr>AllowVirtualNetworkAccess = Some True, AllowForwardedTraffic = Some False,
      AllowGatewayTransit = Some False, UseRemoteGateways = None,
      RemoteVirtualNetwork = Some \<lparr>ID = Some ''/vnets/vnet2''\<rparr>\<rparr>"

definition found_get :: "unit get_reply" where
  "found_get =
     \<lparr>get_properties = Some example_properties, get_err = None, was_not_found = False\<rparr>"

definition not_found_get :: "unit get_reply" where
  "not_found_get =
     \<lparr>get_properties = None,
      get_err = Some \<lparr>Error = ''StatusCode=404'', is_retryable = False\<rparr>,
      was_not_found = True\<rparr>"

definition throttled_get :: "unit get_reply" where
  "throttled_get =
     \<lparr>get_properties = None,
      get_err = Some \<lparr>Error = ''StatusCode=429'', is_retryable = False\<rparr>,
      was_not_found = False\<rparr>"

text \<open>
  A client whose transport answers the submitted request with 200 and a full body, and a
  remote that answers no status request.
\<close>

definition immediate_client :: "(string, string, string, string, unit) sdk_client" where
  "immediate_client =
     \<lparr>NewRequest = (\<lambda>opts. Inr (HttpMethod opts @ '' '' @ Path opts)),
      Marshal = (\<lambda>req inp. Inr (req @ '' '' @ inp)),
      Execute = (\<lambda>req. (Some \<lparr>StatusCode = 200, status_marker = None,
                                body = Some ''{id:item1}'', operation_url = None\<rparr>, None)),
      Unmarshal = (\<lambda>resp. Inr (body resp)),
      PollerFromResponse = (\<lambda>resp. Inr ()),
      PollUntilDone = (\<lambda>p. Some (None, 0))\<rparr>"

definition silent_env :: "string poll_env" where
  "silent_env =
     \<lparr>checks = (\<lambda>k. TransportError), check_latency = (\<lambda>k. 0), poll_interval = 10,
      deadline = 60\<rparr>"

text \<open>
  An accepted request, and a remote whose first two status answers are in progress and
  whose third carries the result.
\<close>

definition accepted_response :: "string sdk_response" where
  "accepted_response =
     \<lparr>StatusCode = 202, status_marker = None, body = None,
      operation_url = Some ''/operations/1''\<rparr>"

definition three_polls_env :: "string poll_env" where
  "three_polls_env =
     \<lparr>checks = (\<lambda>k. if k < 2
                     then Answer \<lparr>StatusCode = 200, status_marker = Some InProgress,
                                  body = None, operation_url = None\<rparr>
                     else Answer \<lparr>StatusCode = 200, status_marker = Some Succeeded,
                                  body = Some ''{result}'', operation_url = None\<rparr>),
      check_latency = (\<lambda>k. 1), poll_interval = 10, deadline = 60\<rparr>"

text \<open>Filters and a dead-letter destination.\<close>

definition nan_filter :: NumberInRangeAdvancedFilter where
  "nan_filter =
     \<lparr>NumberInRange_Values = Some (Some [Some [Finite 1 0, NaN]]),
      NumberInRange_Key = Some ''data.size''\<rparr>"

definition range_filter :: NumberInRangeAdvancedFilter where
  "range_filter =
     \<lparr>NumberInRange_Values = Some (Some [Some [Finite 1 0, Finite 5 1]]),
      NumberInRange_Key = Some ''data.size''\<rparr>"

definition blob_destination :: "string StorageBlobDeadLetterDestination" where
  "blob_destination = \<lparr>Properties = Some ''deadletters''\<rparr>"

definition suffix_filter :: StringContainsAdvancedFilter where
  "suffix_filter =
     \<lparr>StringContains_Values = Some (Some [''.jpg'', ''.png'']),
      StringContains_Key = Some ''subject''\<rparr>"

text \<open>A Location Topic Type ID.\<close>

definition storage_topic_type :: LocationTopicTypeId where
  "storage_topic_type = NewLocationTopicTypeID ''sub-1'' ''westeurope'' ''Microsoft.Storage''"

text \<open>
  A wait loop, the model Create submits for the example data, and a schedule of an Update
  (call 0) and a Create (call 1).
\<close>

definition example_wait :: "StateChangeConf \<Rightarrow> (wait_result \<times> nat) option" where
  "example_wait = wait_from_start (\<lambda>k. 1)"

definition example_model :: properties_format where
  "example_model =
     \<lparr>AllowVirtualNetworkAccess = Some True, AllowForwardedTraffic = Some True,
      AllowGatewayTransit = Some True, UseRemoteGateways = Some True,
      RemoteVirtualNetwork = Some \<lparr>ID = Some ''/vnets/vnet1''\<rparr>\<rparr>"

definition example_schedule :: "(nat \<times> properties_format event) list" where
  "example_schedule =
     [(0, Lock), (0, Get_request), (1, Get_request),
      (0, CreateOrUpdate_request (example_properties\<lparr>AllowGatewayTransit := Some True\<rparr>)),
      (0, WaitForCompletion), (0, Get_request), (0, Unlock),
      (1, Lock), (1, CreateOrUpdate_request example_model),
      (1, CreateOrUpdate_request example_model), (1, CreateOrUpdate_request example_model),
      (1, WaitForCompletion), (1, Get_request), (1, Unlock)]"

section \<open>Properties of the refresh function\<close>

lemma strings_Contains_sublist: "strings_Contains s substr = sublist substr s"
  by (induction s) (auto simp: sublist_Cons_right)

lemma refresh_result_is_state:
  "fst (virtualNetworkPeeringCreateFunc r) = refresh_state (virtualNetworkPeeringCreateFunc r)"
  by (simp add: virtualNetworkPeeringCreateFunc_def refresh_state_def split: option.splits)

lemma refresh_state_cases:
  "refresh_state (virtualNetworkPeeringCreateFunc r) \<in> {''Pending'', ''Succeeded'', ''Failed'', ''Failure''}"
  by (simp add: virtualNetworkPeeringCreateFunc_def refresh_state_def split: option.splits)

text \<open>
  C1 as stated fails: a 400 response whose error text contains
  \<^verbatim>\<open>ReferencedResourceNotProvisioned\<close> is classified \<^verbatim>\<open>Pending\<close> (the resource is not
  yet ready), although the error is not retryable.
\<close>

theorem peering_refresh_4xx_pending_counterexample:
  "failed_with_4xx not_provisioned_reply \<and>
   refresh_state (virtualNetworkPeeringCreateFunc not_provisioned_reply) = ''Pending''"
  by (simp add: failed_with_4xx_def not_provisioned_reply_def
      virtualNetworkPeeringCreateFunc_def refresh_state_def)

text \<open>
  C1 (amended): when \<^verbatim>\<open>CreateOrUpdate\<close> fails with a 4xx response and the error is not
  retryable, the refresh function returns the state \<^verbatim>\<open>Failed\<close> together with the error,
  except for a 400 response whose error text contains
  \<^verbatim>\<open>ReferencedResourceNotProvisioned\<close>, which is classified \<^verbatim>\<open>Pending\<close>.
\<close>

theorem peering_refresh_4xx_classification:
  assumes "reply_err r = Some err" and "Response (reply_future r) = Some resp"
    and "400 \<le> StatusCode resp" and "StatusCode resp < 500" and "\<not> is_retryable err"
  shows "virtualNetworkPeeringCreateFunc r =
     (if StatusCode resp = 400
         \<and> strings_Contains (Error err) ''ReferencedResourceNotProvisioned''
      then (''Pending'', ''Pending'', Some err) else (''Failed'', ''Failed'', Some err))"
  using assms by (simp add: virtualNetworkPeeringCreateFunc_def)

theorem peering_refresh_4xx_classification_witness:
  "reply_err forbidden_reply = Some \<lparr>Error = ''AuthorizationFailed'', is_retryable = False\<rparr>
   \<and> Response (reply_future forbidden_reply) = Some \<lparr>StatusCode = 403\<rparr>
   \<and> virtualNetworkPeeringCreateFunc forbidden_reply =
     (''Failed'', ''Failed'', Some \<lparr>Error = ''AuthorizationFailed'', is_retryable = False\<rparr>)"
  using peering_refresh_4xx_classification
    [of forbidden_reply "\<lparr>Error = ''AuthorizationFailed'', is_retryable = False\<rparr>"
        "\<lparr>StatusCode = 403\<rparr>"]
  by (simp add: forbidden_reply_def)

section \<open>Properties of the wait loop\<close>

text \<open>
  Every status request but the last one of a wait saw a pending state that is not the
  target.
\<close>

lemma WaitForState_requests:
  assumes "WaitForState conf latency now issued = Some r"
  shows "length issued \<le> length (snd r) \<and> (\<forall>i. length issued \<le> i \<and> Suc i < length (snd r) \<longrightarrow>
        refresh_state (Refresh conf i) \<in> set (Pending conf) \<and>
        refresh_state (Refresh conf i) \<notin> set (Target conf))"
proof (rule WaitForState.raw_induct[where P = "\<lambda>conf latency now issued r.
      length issued \<le> length (snd r) \<and> (\<forall>i. length issued \<le> i \<and> Suc i < length (snd r) \<longrightarrow>
        refresh_state (Refresh conf i) \<in> set (Pending conf) \<and>
        refresh_state (Refresh conf i) \<notin> set (Target conf))", OF _ assms])
  fix W :: "StateChangeConf \<Rightarrow> (nat \<Rightarrow> nat) \<Rightarrow> nat \<Rightarrow> nat list \<Rightarrow> (wait_result \<times> nat list) option"
    and conf latency now issued r
  assume IH: "\<And>conf latency now issued r. W conf latency now issued = Some r \<Longrightarrow>
      length issued \<le> length (snd r) \<and> (\<forall>i. length issued \<le> i \<and> Suc i < length (snd r) \<longrightarrow>
        refresh_state (Refresh conf i) \<in> set (Pending conf) \<and>
        refresh_state (Refresh conf i) \<notin> set (Target conf))"
    and eq: "(if Timeout conf \<le> now then Some (DeadlineExceeded, issued)
      else let wake = now + MinTimeout conf in
        if Timeout conf < wake then Some (DeadlineExceeded, issued)
        else (case Refresh conf (length issued) of (result, state, err) \<Rightarrow>
          if state \<in> set (Target conf) then Some (Reached result, issued @ [wake])
          else if state \<in> set (Pending conf)
            then W conf latency (wake + latency (length issued)) (issued @ [wake])
          else Some (RefreshFailed state err, issued @ [wake]))) = Some r"
  obtain result state err where rf: "Refresh conf (length issued) = (result, state, err)"
    by (cases "Refresh conf (length issued)") auto
  have st: "refresh_state (Refresh conf (length issued)) = state"
    using rf by (simp add: refresh_state_def)
  let ?wake = "now + MinTimeout conf"
  let ?go = "\<not> Timeout conf \<le> now \<and> \<not> Timeout conf < ?wake"
  consider (timeout) "Timeout conf \<le> now \<or> Timeout conf < ?wake"
    | (target) "?go" "state \<in> set (Target conf)"
    | (pending) "?go" "state \<notin> set (Target conf)" "state \<in> set (Pending conf)"
    | (other) "?go" "state \<notin> set (Target conf)" "state \<notin> set (Pending conf)"
    by blast
  then show "length issued \<le> length (snd r) \<and> (\<forall>i. length issued \<le> i \<and> Suc i < length (snd r) \<longrightarrow>
        refresh_state (Refresh conf i) \<in> set (Pending conf) \<and>
        refresh_state (Refresh conf i) \<notin> set (Target conf))"
  proof cases
    case timeout
    with eq have "snd r = issued" by (auto simp: Let_def split: if_splits)
    then show ?thesis by auto
  next
    case target
    with eq rf have "snd r = issued @ [?wake]" by (auto simp: Let_def)
    then show ?thesis by auto
  next
    case pending
    with eq rf have "W conf latency (?wake + latency (length issued)) (issued @ [?wake]) = Some r"
      by (simp add: Let_def)
    from IH[OF this] have ih: "Suc (length issued) \<le> length (snd r)"
      "\<And>i. Suc (length issued) \<le> i \<Longrightarrow> Suc i < length (snd r) \<Longrightarrow>
          refresh_state (Refresh conf i) \<in> set (Pending conf) \<and>
          refresh_state (Refresh conf i) \<notin> set (Target conf)" by auto
    show ?thesis
    proof (intro conjI allI impI)
      show "length issued \<le> length (snd r)" using ih(1) by simp
    next
      fix i assume i: "length issued \<le> i \<and> Suc i < length (snd r)"
      show "refresh_state (Refresh conf i) \<in> set (Pending conf)"
        using i ih(2)[of i] st pending by (cases "i = length issued") auto
      show "refresh_state (Refresh conf i) \<notin> set (Target conf)"
        using i ih(2)[of i] st pending by (cases "i = length issued") auto
    qed
  next
    case other
    with eq rf have "snd r = issued @ [?wake]" by (auto simp: Let_def)
    then show ?thesis by auto
  qed
qed

text \<open>The outcome of a wait agrees with the state its last status request saw.\<close>

lemma WaitForState_outcome:
  assumes "WaitForState conf latency now issued = Some r"
  shows "outcome_matches conf (length issued) (fst r, length (snd r))"
proof (rule WaitForState.raw_induct[where P = "\<lambda>conf latency now issued r.
      outcome_matches conf (length issued) (fst r, length (snd r))", OF _ assms])
  fix W :: "StateChangeConf \<Rightarrow> (nat \<Rightarrow> nat) \<Rightarrow> nat \<Rightarrow> nat list \<Rightarrow> (wait_result \<times> nat list) option"
    and conf latency now issued r
  assume IH: "\<And>conf latency now issued r. W conf latency now issued = Some r \<Longrightarrow>
      outcome_matches conf (length issued) (fst r, length (snd r))"
    and eq: "(if Timeout conf \<le> now then Some (DeadlineExceeded, issued)
      else let wake = now + MinTimeout conf in
        if Timeout conf < wake then Some (DeadlineExceeded, issued)
        else (case Refresh conf (length issued) of (result, state, err) \<Rightarrow>
          if state \<in> set (Target conf) then Some (Reached result, issued @ [wake])
          else if state \<in> set (Pending conf)
            then W conf latency (wake + latency (length issued)) (issued @ [wake])
          else Some (RefreshFailed state err, issued @ [wake]))) = Some r"
  obtain result state err where rf: "Refresh conf (length issued) = (result, state, err)"
    by (cases "Refresh conf (length issued)") auto
  have st: "refresh_state (Refresh conf (length issued)) = state"
    using rf by (simp add: refresh_state_def)
  let ?wake = "now + MinTimeout conf"
  let ?go = "\<not> Timeout conf \<le> now \<and> \<not> Timeout conf < ?wake"
  consider (timeout) "Timeout conf \<le> now \<or> Timeout conf < ?wake"
    | (target) "?go" "state \<in> set (Target conf)"
    | (pending) "?go" "state \<notin> set (Target conf)" "state \<in> set (Pending conf)"
    | (other) "?go" "state \<notin> set (Target conf)" "state \<notin> set (Pending conf)"
    by blast
  then show "outcome_matches conf (length issued) (fst r, length (snd r))"
  proof cases
    case timeout
    with eq have "r = (DeadlineExceeded, issued)" by (auto simp: Let_def split: if_splits)
    then show ?thesis by (simp add: outcome_matches_def)
  next
    case target
    with eq rf have "r = (Reached result, issued @ [?wake])" by (auto simp: Let_def)
    with target rf show ?thesis by (simp add: outcome_matches_def refresh_state_def)
  next
    case pending
    with eq rf have "W conf latency (?wake + latency (length issued)) (issued @ [?wake]) = Some r"
      by (simp add: Let_def)
    from IH[OF this]
    have ih: "outcome_matches conf (Suc (length issued)) (fst r, length (snd r))" by simp
    let ?n = "length (snd r)"
    show ?thesis
    proof (cases "fst r")
      case DeadlineExceeded
      with ih have le: "Suc (length issued) \<le> ?n" and last: "Suc (length issued) < ?n \<longrightarrow>
            refresh_state (Refresh conf (?n - 1)) \<in> set (Pending conf)
            \<and> refresh_state (Refresh conf (?n - 1)) \<notin> set (Target conf)"
        by (simp_all add: outcome_matches_def)
      have "refresh_state (Refresh conf (?n - 1)) \<in> set (Pending conf)
            \<and> refresh_state (Refresh conf (?n - 1)) \<notin> set (Target conf)"
      proof (cases "?n = Suc (length issued)")
        case True
        then show ?thesis using st pending by simp
      next
        case False
        with le last show ?thesis by simp
      qed
      with le DeadlineExceeded show ?thesis by (simp add: outcome_matches_def)
    next
      case (Reached res)
      with ih show ?thesis by (auto simp: outcome_matches_def)
    next
      case (RefreshFailed s e)
      with ih show ?thesis by (auto simp: outcome_matches_def)
    qed
  next
    case other
    with eq rf have "r = (RefreshFailed state err, issued @ [?wake])" by (auto simp: Let_def)
    with other rf show ?thesis by (simp add: outcome_matches_def refresh_state_def)
  qed
qed

text \<open>
  Every status request of a wait is issued no later than the deadline: the times the loop
  adds to those it started with are at most \<open>Timeout conf\<close>.
\<close>

lemma WaitForState_issued:
  assumes "WaitForState conf latency now issued = Some r"
  shows "(\<exists>new. snd r = issued @ new \<and> (\<forall>t \<in> set new. t \<le> Timeout conf))"
proof (rule WaitForState.raw_induct[where P = "\<lambda>conf latency now issued r.
      (\<exists>new. snd r = issued @ new \<and> (\<forall>t \<in> set new. t \<le> Timeout conf))", OF _ assms])
  fix W :: "StateChangeConf \<Rightarrow> (nat \<Rightarrow> nat) \<Rightarrow> nat \<Rightarrow> nat list \<Rightarrow> (wait_result \<times> nat list) option"
    and conf latency now issued r
  assume IH: "\<And>conf latency now issued r. W conf latency now issued = Some r \<Longrightarrow>
      (\<exists>new. snd r = issued @ new \<and> (\<forall>t \<in> set new. t \<le> Timeout conf))"
    and eq: "(if Timeout conf \<le> now then Some (DeadlineExceeded, issued)
      else let wake = now + MinTimeout conf in
        if Timeout conf < wake then Some (DeadlineExceeded, issued)
        else (case Refresh conf (length issued) of (result, state, err) \<Rightarrow>
          if state \<in> set (Target conf) then Some (Reached result, issued @ [wake])
          else if state \<in> set (Pending conf)
            then W conf latency (wake + latency (length issued)) (issued @ [wake])
          else Some (RefreshFailed state err, issued @ [wake]))) = Some r"
  obtain result state err where rf: "Refresh conf (length issued) = (result, state, err)"
    by (cases "Refresh conf (length issued)") auto
  have st: "refresh_state (Refresh conf (length issued)) = state"
    using rf by (simp add: refresh_state_def)
  let ?wake = "now + MinTimeout conf"
  let ?go = "\<not> Timeout conf \<le> now \<and> \<not> Timeout conf < ?wake"
  consider (timeout) "Timeout conf \<le> now \<or> Timeout conf < ?wake"
    | (target) "?go" "state \<in> set (Target conf)"
    | (pending) "?go" "state \<notin> set (Target conf)" "state \<in> set (Pending conf)"
    | (other) "?go" "state \<notin> set (Target conf)" "state \<notin> set (Pending conf)"
    by blast
  then show "(\<exists>new. snd r = issued @ new \<and> (\<forall>t \<in> set new. t \<le> Timeout conf))"
  proof cases
    case timeout
    with eq have "snd r = issued @ []" by (auto simp: Let_def split: if_splits)
    then show ?thesis by simp
  next
    case target
    with eq rf have "snd r = issued @ [?wake]" by (auto simp: Let_def)
    moreover have "\<forall>t \<in> set [?wake]. t \<le> Timeout conf" using target(1) by simp
    ultimately show ?thesis by blast
  next
    case pending
    with eq rf have "W conf latency (?wake + latency (length issued)) (issued @ [?wake]) = Some r"
      by (simp add: Let_def)
    from IH[OF this] obtain new where new: "snd r = (issued @ [?wake]) @ new"
      "\<forall>t \<in> set new. t \<le> Timeout conf" by blast
    have "snd r = issued @ (?wake # new)" using new(1) by simp
    moreover have "\<forall>t \<in> set (?wake # new). t \<le> Timeout conf"
      using new(2) pending(1) by simp
    ultimately show ?thesis by blast
  next
    case other
    with eq rf have "snd r = issued @ [?wake]" by (auto simp: Let_def)
    moreover have "\<forall>t \<in> set [?wake]. t \<le> Timeout conf" using other(1) by simp
    ultimately show ?thesis by blast
  qed
qed

text \<open>With a positive minimum poll interval the loop always ends.\<close>

lemma WaitForState_total:
  assumes "0 < MinTimeout conf"
  shows "\<exists>r. WaitForState conf latency now issued = Some r"
proof (induction "Timeout conf - now" arbitrary: now issued rule: less_induct)
  case less
  let ?wake = "now + MinTimeout conf"
  show ?case
  proof (cases "Timeout conf \<le> now \<or> Timeout conf < ?wake")
    case True
    then show ?thesis by (subst WaitForState.simps) (auto simp: Let_def)
  next
    case False
    obtain result state err where r: "Refresh conf (length issued) = (result, state, err)"
      by (cases "Refresh conf (length issued)") auto
    have "Timeout conf - (?wake + latency (length issued)) < Timeout conf - now"
      using False assms by arith
    from less[OF this]
    obtain r' where
      "WaitForState conf latency (?wake + latency (length issued)) (issued @ [?wake]) = Some r'"
      by blast
    with False r show ?thesis by (subst WaitForState.simps) (simp add: Let_def)
  qed
qed

text \<open>
  A run of \<open>m\<close> pending answers that ends before the deadline is skipped: the loop
  continues after it, \<open>m\<close> requests and the time of \<open>m\<close> iterations (each a pause and a
  request) later.
\<close>

lemma WaitForState_pending_prefix:
  assumes "\<forall>i<m. refresh_state (Refresh conf (length issued + i)) \<in> set (Pending conf)
              \<and> refresh_state (Refresh conf (length issued + i)) \<notin> set (Target conf)"
    and "now + (\<Sum>i<m. MinTimeout conf + latency (length issued + i)) < Timeout conf"
  shows "\<exists>new. length new = m \<and> WaitForState conf latency now issued =
         WaitForState conf latency
           (now + (\<Sum>i<m. MinTimeout conf + latency (length issued + i))) (issued @ new)"
  using assms
proof (induction m arbitrary: now issued)
  case 0
  then show ?case by simp
next
  case (Suc m)
  let ?k = "length issued"
  let ?f = "\<lambda>j. MinTimeout conf + latency j"
  let ?wake = "now + MinTimeout conf"
  let ?issued = "issued @ [?wake]"
  have len: "length ?issued = Suc ?k" by simp
  have split: "(\<Sum>i<Suc m. ?f (?k + i)) = ?f ?k + (\<Sum>i<m. ?f (Suc ?k + i))"
    by (subst sum.lessThan_Suc_shift) simp
  have now: "\<not> Timeout conf \<le> now" "\<not> Timeout conf < ?wake"
    using Suc.prems(2) split by simp_all
  obtain result state err where r: "Refresh conf ?k = (result, state, err)"
    by (cases "Refresh conf ?k") auto
  from Suc.prems(1) have "refresh_state (Refresh conf (?k + 0)) \<in> set (Pending conf)
      \<and> refresh_state (Refresh conf (?k + 0)) \<notin> set (Target conf)" by blast
  with r have st: "state \<in> set (Pending conf)" "state \<notin> set (Target conf)"
    by (simp_all add: refresh_state_def)
  have step: "WaitForState conf latency now issued =
      WaitForState conf latency (?wake + latency ?k) ?issued"
    using now r st by (subst WaitForState.simps) (simp add: Let_def)
  have rest: "\<forall>i<m. refresh_state (Refresh conf (length ?issued + i)) \<in> set (Pending conf)
              \<and> refresh_state (Refresh conf (length ?issued + i)) \<notin> set (Target conf)"
    unfolding len using Suc.prems(1) by (metis Suc_less_eq add_Suc_shift)
  have e: "(?wake + latency ?k) + (\<Sum>i<m. ?f (Suc ?k + i)) =
      now + (\<Sum>i<Suc m. ?f (?k + i))"
    by (simp only: split add.assoc)
  have time: "(?wake + latency ?k) + (\<Sum>i<m. ?f (length ?issued + i)) < Timeout conf"
    unfolding len e using Suc.prems(2) .
  from Suc.IH[OF rest time] obtain new where new: "length new = m"
    "WaitForState conf latency (?wake + latency ?k) ?issued =
      WaitForState conf latency ((?wake + latency ?k) + (\<Sum>i<m. ?f (length ?issued + i)))
        (?issued @ new)" by blast
  have "WaitForState conf latency now issued =
      WaitForState conf latency (now + (\<Sum>i<Suc m. ?f (?k + i))) (issued @ (?wake # new))"
    using step new(2) unfolding len e by simp
  moreover have "length (?wake # new) = Suc m" using new(1) by simp
  ultimately show ?case by blast
qed

lemma flaky_wait:
  "WaitForState (peering_conf flaky_replies 1800) (\<lambda>k. 1) 0 []
     = Some (Reached ''Succeeded'', [15, 31, 47])"
  by code_simp

lemma stuck_wait:
  "WaitForState (peering_conf (\<lambda>k. connection_reset_reply) 40) (\<lambda>k. 1) 0 []
     = Some (DeadlineExceeded, [15, 31])"
  by code_simp

lemma failure_wait:
  "WaitForState (peering_conf (\<lambda>k. wait_failed_reply) 1800) (\<lambda>k. 1) 0 []
     = Some (RefreshFailed ''Failure''
               (Some \<lparr>Error = ''Code=InternalServerError'', is_retryable = False\<rparr>), [15])"
  by code_simp

lemma reset_then_server_error_wait:
  "WaitForState (peering_conf reset_then_server_error 1800) (\<lambda>k. 1) 0 []
     = Some (RefreshFailed ''Failed''
               (Some \<lparr>Error = ''StatusCode=503'', is_retryable = False\<rparr>), [15, 31, 47])"
  by code_simp

text \<open>
  C2: the create wait is a state machine over the states pending, succeeded and failed
  that starts in the pending state. The refresh function reports \<^verbatim>\<open>Pending\<close>, success as
  \<^verbatim>\<open>Succeeded\<close>, and a failure as \<^verbatim>\<open>Failed\<close> (\<^verbatim>\<open>CreateOrUpdate\<close> failed) or \<^verbatim>\<open>Failure\<close>
  (\<^verbatim>\<open>WaitForCompletionRef\<close> failed); every string other than \<^verbatim>\<open>Succeeded\<close> and
  \<^verbatim>\<open>Pending\<close> stands for the failed state. Succeeded and failed are terminal: in every
  execution of the wait, every status request before a given one saw the pending state,
  and a status request that sees the succeeded or the failed state is the last request
  issued and fixes the outcome of the wait to that state, success for succeeded and the
  fatal error of the refresh for failed.
\<close>

theorem peering_wait_terminal_absorbing:
  assumes "WaitForState (peering_conf replies remaining) latency 0 [] = Some (out, issued)"
    and "i < length issued"
  shows "(\<forall>j<i. state_of (peering_conf replies remaining)
                   (refresh_state (virtualNetworkPeeringCreateFunc (replies j))) = StatePending)
       \<and> refresh_state (virtualNetworkPeeringCreateFunc (replies i))
           \<in> {''Pending'', ''Succeeded'', ''Failed'', ''Failure''}
       \<and> state_of (peering_conf replies remaining)
            (refresh_state (virtualNetworkPeeringCreateFunc (replies i)))
          = (if refresh_state (virtualNetworkPeeringCreateFunc (replies i)) = ''Succeeded''
             then StateSucceeded
             else if refresh_state (virtualNetworkPeeringCreateFunc (replies i)) = ''Pending''
             then StatePending else StateFailed)
       \<and> (state_of (peering_conf replies remaining)
             (refresh_state (virtualNetworkPeeringCreateFunc (replies i)))
           \<in> {StateSucceeded, StateFailed} \<longrightarrow>
          length issued = Suc i \<and>
          out = (if state_of (peering_conf replies remaining)
                      (refresh_state (virtualNetworkPeeringCreateFunc (replies i)))
                    = StateSucceeded
                 then Reached ''Succeeded''
                 else RefreshFailed (refresh_state (virtualNetworkPeeringCreateFunc (replies i)))
                        (snd (snd (virtualNetworkPeeringCreateFunc (replies i))))))"
proof (intro conjI impI allI)
  let ?conf = "peering_conf replies remaining"
  let ?r = "virtualNetworkPeeringCreateFunc (replies i)"
  let ?st = "refresh_state ?r"
  let ?n = "length issued"
  have req: "\<And>j. Suc j < ?n \<Longrightarrow>
      refresh_state (virtualNetworkPeeringCreateFunc (replies j)) = ''Pending''"
    using WaitForState_requests[OF assms(1)] by (auto simp: peering_conf_def)
  fix j assume "j < i"
  with assms(2) have "Suc j < ?n" by simp
  from req[OF this]
  show "state_of ?conf (refresh_state (virtualNetworkPeeringCreateFunc (replies j)))
      = StatePending"
    by (simp add: state_of_def peering_conf_def)
next
  show "refresh_state (virtualNetworkPeeringCreateFunc (replies i))
      \<in> {''Pending'', ''Succeeded'', ''Failed'', ''Failure''}"
    by (rule refresh_state_cases)
next
  let ?conf = "peering_conf replies remaining"
  let ?r = "virtualNetworkPeeringCreateFunc (replies i)"
  let ?st = "refresh_state ?r"
  show "state_of ?conf ?st
      = (if ?st = ''Succeeded'' then StateSucceeded
         else if ?st = ''Pending'' then StatePending else StateFailed)"
    by (simp add: state_of_def peering_conf_def)
next
  let ?conf = "peering_conf replies remaining"
  let ?r = "virtualNetworkPeeringCreateFunc (replies i)"
  let ?st = "refresh_state ?r"
  let ?n = "length issued"
  assume final: "state_of ?conf ?st \<in> {StateSucceeded, StateFailed}"
  then have np: "?st \<noteq> ''Pending''"
    by (auto simp: state_of_def peering_conf_def split: if_splits)
  have "\<not> Suc i < ?n"
    using WaitForState_requests[OF assms(1)] np by (auto simp: peering_conf_def)
  with assms(2) show n: "?n = Suc i" by simp
  have res: "fst ?r = ?st"
    by (simp add: virtualNetworkPeeringCreateFunc_def refresh_state_def split: option.splits)
  have om: "outcome_matches ?conf 0 (out, ?n)"
    using WaitForState_outcome[OF assms(1)] by simp
  have cls: "state_of ?conf ?st = StateSucceeded \<longleftrightarrow> ?st = ''Succeeded''"
    by (simp add: state_of_def peering_conf_def)
  show "out = (if state_of ?conf ?st = StateSucceeded then Reached ''Succeeded''
        else RefreshFailed ?st (snd (snd ?r)))"
  proof (cases out)
    case DeadlineExceeded
    with om n np show ?thesis
      by (auto simp: outcome_matches_def peering_conf_def)
  next
    case (Reached res)
    with om n res show ?thesis unfolding cls
      by (auto simp: outcome_matches_def peering_conf_def)
  next
    case (RefreshFailed st err)
    with om n show ?thesis unfolding cls
      by (auto simp: outcome_matches_def peering_conf_def)
  qed
qed

theorem peering_wait_terminal_absorbing_witness:
  "WaitForState (peering_conf flaky_replies 1800) (\<lambda>k. 1) 0 []
     = Some (Reached ''Succeeded'', [15, 31, 47])
   \<and> (2::nat) < length [15, 31, 47::nat]
   \<and> state_of (peering_conf flaky_replies 1800)
        (refresh_state (virtualNetworkPeeringCreateFunc (flaky_replies 0))) = StatePending
   \<and> state_of (peering_conf flaky_replies 1800)
        (refresh_state (virtualNetworkPeeringCreateFunc (flaky_replies 1))) = StatePending
   \<and> state_of (peering_conf flaky_replies 1800)
        (refresh_state (virtualNetworkPeeringCreateFunc (flaky_replies 2))) = StateSucceeded
   \<and> length [15, 31, 47::nat] = Suc 2
   \<and> WaitForState (peering_conf (\<lambda>k. wait_failed_reply) 1800) (\<lambda>k. 1) 0 []
       = Some (RefreshFailed ''Failure''
                 (Some \<lparr>Error = ''Code=InternalServerError'', is_retryable = False\<rparr>), [15])
   \<and> refresh_state (virtualNetworkPeeringCreateFunc wait_failed_reply) = ''Failure''
   \<and> state_of (peering_conf (\<lambda>k. wait_failed_reply) 1800)
        (refresh_state (virtualNetworkPeeringCreateFunc wait_failed_reply)) = StateFailed
   \<and> length [15::nat] = Suc 0"
proof -
  let ?c = "peering_conf flaky_replies 1800"
  let ?st = "\<lambda>k. refresh_state (virtualNetworkPeeringCreateFunc (flaky_replies k))"
  have run: "WaitForState ?c (\<lambda>k. 1) 0 [] = Some (Reached ''Succeeded'', [15, 31, 47])"
    by (rule flaky_wait)
  have i: "(2::nat) < length [15, 31, 47::nat]" by simp
  note inst = peering_wait_terminal_absorbing[OF run i]
  have before: "\<forall>j<2. state_of ?c (?st j) = StatePending"
    by (rule conjunct1[OF inst])
  have p0: "state_of ?c (?st 0) = StatePending"
    using before by simp
  have p1: "state_of ?c (?st 1) = StatePending"
    using before by simp
  have st: "?st 2 = ''Succeeded''"
    by (simp add: flaky_replies_def succeeded_reply_def virtualNetworkPeeringCreateFunc_def
        refresh_state_def)
  have "state_of ?c (?st 2)
      = (if ?st 2 = ''Succeeded'' then StateSucceeded
         else if ?st 2 = ''Pending'' then StatePending else StateFailed)"
    by (rule conjunct1[OF conjunct2[OF conjunct2[OF inst]]])
  then have s2: "state_of ?c (?st 2) = StateSucceeded"
    unfolding st by simp
  then have final: "state_of ?c (?st 2) \<in> {StateSucceeded, StateFailed}" by simp
  have "length [15, 31, 47::nat] = Suc 2 \<and> Reached ''Succeeded''
      = (if state_of ?c (?st 2) = StateSucceeded then Reached ''Succeeded''
         else RefreshFailed (?st 2) (snd (snd (virtualNetworkPeeringCreateFunc (flaky_replies 2)))))"
    by (rule mp[OF conjunct2[OF conjunct2[OF conjunct2[OF inst]]] final])
  then have n: "length [15, 31, 47::nat] = Suc 2" by (rule conjunct1)
  let ?d = "peering_conf (\<lambda>k. wait_failed_reply) 1800"
  let ?e = "Some \<lparr>Error = ''Code=InternalServerError'', is_retryable = False\<rparr>"
  have run': "WaitForState ?d (\<lambda>k. 1) 0 [] = Some (RefreshFailed ''Failure'' ?e, [15])"
    by (rule failure_wait)
  have i': "(0::nat) < length [15::nat]" by simp
  note inst' = peering_wait_terminal_absorbing[OF run' i']
  have st': "refresh_state (virtualNetworkPeeringCreateFunc wait_failed_reply) = ''Failure''"
    by (simp add: wait_failed_reply_def virtualNetworkPeeringCreateFunc_def refresh_state_def)
  have "state_of ?d (refresh_state (virtualNetworkPeeringCreateFunc wait_failed_reply))
      = (if refresh_state (virtualNetworkPeeringCreateFunc wait_failed_reply) = ''Succeeded''
         then StateSucceeded
         else if refresh_state (virtualNetworkPeeringCreateFunc wait_failed_reply) = ''Pending''
         then StatePending else StateFailed)"
    by (rule conjunct1[OF conjunct2[OF conjunct2[OF inst']]])
  then have f: "state_of ?d (refresh_state (virtualNetworkPeeringCreateFunc wait_failed_reply))
      = StateFailed"
    unfolding st' by simp
  then have final': "state_of ?d (refresh_state (virtualNetworkPeeringCreateFunc wait_failed_reply))
      \<in> {StateSucceeded, StateFailed}" by simp
  have "length [15::nat] = Suc 0 \<and> RefreshFailed ''Failure'' ?e
      = (if state_of ?d (refresh_state (virtualNetworkPeeringCreateFunc wait_failed_reply))
            = StateSucceeded
         then Reached ''Succeeded''
         else RefreshFailed (refresh_state (virtualNetworkPeeringCreateFunc wait_failed_reply))
                (snd (snd (virtualNetworkPeeringCreateFunc wait_failed_reply))))"
    by (rule mp[OF conjunct2[OF conjunct2[OF conjunct2[OF inst']]] final'])
  then have n': "length [15::nat] = Suc 0" by (rule conjunct1)
  show ?thesis
    by (rule conjI[OF run conjI[OF i conjI[OF p0 conjI[OF p1 conjI[OF s2 conjI[OF n
          conjI[OF run' conjI[OF st' conjI[OF f n']]]]]]]]])
qed

text \<open>
  C3: for every deadline (the time \<open>remaining\<close> until it when the wait begins) and every
  operation whose status requests never see a terminal state, the create wait ends, its
  outcome is the timeout error, which is not the fatal error of a refresh, and every status
  request, so the last one too, was issued no later than the deadline; only the answer to
  the last request may arrive after it.
\<close>

theorem peering_wait_deadline:
  assumes "\<forall>k. refresh_state (virtualNetworkPeeringCreateFunc (replies k)) = ''Pending''"
  shows "\<exists>issued. WaitForState (peering_conf replies remaining) latency 0 [] =
             Some (DeadlineExceeded, issued)
           \<and> (\<forall>t \<in> set issued. t \<le> remaining)
           \<and> (\<forall>state err. DeadlineExceeded \<noteq> RefreshFailed state err)"
proof -
  let ?conf = "peering_conf replies remaining"
  have "0 < MinTimeout ?conf" by (simp add: peering_conf_def)
  from WaitForState_total[OF this]
  obtain out issued where run: "WaitForState ?conf latency 0 [] = Some (out, issued)"
    by fastforce
  have pending: "\<And>k. refresh_state (Refresh ?conf k) \<in> set (Pending ?conf)
      \<and> refresh_state (Refresh ?conf k) \<notin> set (Target ?conf)"
    using assms by (simp add: peering_conf_def)
  have om: "outcome_matches ?conf 0 (out, length issued)"
    using WaitForState_outcome[OF run] by simp
  have out: "out = DeadlineExceeded"
  proof (cases out)
    case DeadlineExceeded
    then show ?thesis .
  next
    case (Reached res)
    with om pending[of "length issued - 1"] show ?thesis
      by (auto simp: outcome_matches_def)
  next
    case (RefreshFailed st err)
    with om pending[of "length issued - 1"] show ?thesis
      by (auto simp: outcome_matches_def)
  qed
  from WaitForState_issued[OF run] have "\<forall>t \<in> set issued. t \<le> Timeout ?conf" by simp
  then have "\<forall>t \<in> set issued. t \<le> remaining" by (simp add: peering_conf_def)
  with run out show ?thesis by simp
qed

theorem peering_wait_deadline_witness:
  "refresh_state (virtualNetworkPeeringCreateFunc connection_reset_reply) = ''Pending''
   \<and> WaitForState (peering_conf (\<lambda>k. connection_reset_reply) 40) (\<lambda>k. 1) 0 []
       = Some (DeadlineExceeded, [15, 31])
   \<and> (15::nat) \<le> 40 \<and> (31::nat) \<le> 40"
proof -
  have st: "refresh_state (virtualNetworkPeeringCreateFunc connection_reset_reply) = ''Pending''"
    by (simp add: connection_reset_reply_def virtualNetworkPeeringCreateFunc_def
        refresh_state_def)
  then have h: "\<forall>k. refresh_state (virtualNetworkPeeringCreateFunc
      ((\<lambda>k. connection_reset_reply) k)) = ''Pending''" by simp
  from peering_wait_deadline[OF h, of 40 "\<lambda>k. 1"]
  obtain issued where run: "WaitForState (peering_conf (\<lambda>k. connection_reset_reply) 40)
        (\<lambda>k. 1) 0 [] = Some (DeadlineExceeded, issued)"
    and by_deadline: "\<forall>t \<in> set issued. t \<le> 40" by blast
  from run stuck_wait have e: "issued = [15, 31]" by simp
  from by_deadline have t: "(15::nat) \<le> 40 \<and> (31::nat) \<le> 40" unfolding e by simp
  from run have r: "WaitForState (peering_conf (\<lambda>k. connection_reset_reply) 40) (\<lambda>k. 1) 0 []
       = Some (DeadlineExceeded, [15, 31])" unfolding e .
  show ?thesis by (rule conjI[OF st conjI[OF r t]])
qed

text \<open>
  C4 as stated fails for 5xx responses: the refresh function has no test for them. When
  \<^verbatim>\<open>CreateOrUpdate\<close> fails with a 503 and \<^verbatim>\<open>utils.ResponseErrorIsRetryable\<close> does not accept
  the error, the refresh function reports \<^verbatim>\<open>Failed\<close>, and the wait ends with that error
  after one request although the next request would have succeeded.
\<close>

theorem peering_wait_5xx_fatal_counterexample:
  "Response (reply_future (server_error_then_success 0)) = Some \<lparr>StatusCode = 503\<rparr>
   \<and> reply_err (server_error_then_success 0)
       = Some \<lparr>Error = ''StatusCode=503'', is_retryable = False\<rparr>
   \<and> refresh_state (virtualNetworkPeeringCreateFunc (server_error_then_success 0)) = ''Failed''
   \<and> refresh_state (virtualNetworkPeeringCreateFunc (server_error_then_success 1)) = ''Succeeded''
   \<and> WaitForState (peering_conf server_error_then_success 1800) (\<lambda>k. 1) 0 [] =
       Some (RefreshFailed ''Failed''
               (Some \<lparr>Error = ''StatusCode=503'', is_retryable = False\<rparr>), [15])"
proof -
  have r0: "virtualNetworkPeeringCreateFunc (server_error_then_success 0)
      = (''Failed'', ''Failed'', Some \<lparr>Error = ''StatusCode=503'', is_retryable = False\<rparr>)"
    by (simp add: server_error_then_success_def server_error_reply_def
        virtualNetworkPeeringCreateFunc_def)
  have r1: "refresh_state (virtualNetworkPeeringCreateFunc (server_error_then_success 1))
      = ''Succeeded''"
    by (simp add: server_error_then_success_def succeeded_reply_def
        virtualNetworkPeeringCreateFunc_def refresh_state_def)
  have run: "WaitForState (peering_conf server_error_then_success 1800) (\<lambda>k. 1) 0 [] =
       Some (RefreshFailed ''Failed''
               (Some \<lparr>Error = ''StatusCode=503'', is_retryable = False\<rparr>), [15])"
    by (subst WaitForState.simps) (simp add: peering_conf_def r0)
  show ?thesis
    using r0 r1 run
    by (simp add: refresh_state_def server_error_then_success_def server_error_reply_def)
qed

text \<open>
  C4 (amended): the transient errors of the create wait are those that
  \<^verbatim>\<open>utils.ResponseErrorIsRetryable\<close> accepts. When the first \<open>n\<close> calls of \<^verbatim>\<open>CreateOrUpdate\<close>
  fail with such errors, and the \<open>n\<close> failed iterations (each the minimum poll interval of
  15 seconds and the time of its request) and the pause before the next request end by the
  deadline, then, whatever \<open>n\<close> is: if the next call succeeds, the wait ends with success
  after \<open>n + 1\<close> requests and no retryable error is surfaced; if the next call fails with a
  5xx response and an error that \<^verbatim>\<open>utils.ResponseErrorIsRetryable\<close> does not accept, the wait
  ends after \<open>n + 1\<close> requests with the fatal error of the state \<^verbatim>\<open>Failed\<close>, carrying that
  error.
\<close>

theorem peering_wait_retries_transient:
  assumes "\<forall>i<n. \<exists>e. reply_err (replies i) = Some e \<and> is_retryable e"
    and "(\<Sum>i<n. 15 + latency i) + 15 \<le> remaining"
  shows "(reply_err (replies n) = None \<and> completion (reply_future (replies n)) = None \<longrightarrow>
           (\<exists>issued. length issued = Suc n \<and>
              WaitForState (peering_conf replies remaining) latency 0 [] =
                Some (Reached ''Succeeded'', issued)))
       \<and> (\<forall>e resp. reply_err (replies n) = Some e \<and> \<not> is_retryable e
              \<and> Response (reply_future (replies n)) = Some resp \<and> 500 \<le> StatusCode resp \<longrightarrow>
           (\<exists>issued. length issued = Suc n \<and>
              WaitForState (peering_conf replies remaining) latency 0 [] =
                Some (RefreshFailed ''Failed'' (Some e), issued)))"
proof -
  let ?conf = "peering_conf replies remaining"
  let ?now = "0 + (\<Sum>i<n. MinTimeout ?conf + latency (length ([]::nat list) + i))"
  have pend: "\<forall>i<n. refresh_state (Refresh ?conf (length ([]::nat list) + i)) \<in> set (Pending ?conf)
              \<and> refresh_state (Refresh ?conf (length ([]::nat list) + i)) \<notin> set (Target ?conf)"
    using assms(1)
    by (auto simp: peering_conf_def virtualNetworkPeeringCreateFunc_def refresh_state_def)
  have time: "?now < Timeout ?conf" and wake: "?now + 15 \<le> Timeout ?conf"
    using assms(2) by (simp_all add: peering_conf_def)
  from WaitForState_pending_prefix[OF pend time]
  obtain new where new: "length new = n"
    "WaitForState ?conf latency 0 [] = WaitForState ?conf latency ?now ([] @ new)"
    by blast
  have success: "\<exists>issued. length issued = Suc n \<and>
        WaitForState ?conf latency 0 [] = Some (Reached ''Succeeded'', issued)"
    if "reply_err (replies n) = None \<and> completion (reply_future (replies n)) = None"
  proof -
    have "WaitForState ?conf latency ?now ([] @ new)
        = Some (Reached ''Succeeded'', new @ [?now + 15])"
      using time wake that new(1)
      by (subst WaitForState.simps)
         (simp add: peering_conf_def virtualNetworkPeeringCreateFunc_def Let_def)
    with new show ?thesis by simp
  qed
  have fatal: "\<exists>issued. length issued = Suc n \<and>
        WaitForState ?conf latency 0 [] = Some (RefreshFailed ''Failed'' (Some e), issued)"
    if "reply_err (replies n) = Some e \<and> \<not> is_retryable e
        \<and> Response (reply_future (replies n)) = Some resp \<and> 500 \<le> StatusCode resp"
    for e resp
  proof -
    have "WaitForState ?conf latency ?now ([] @ new)
        = Some (RefreshFailed ''Failed'' (Some e), new @ [?now + 15])"
      using time wake that new(1)
      by (subst WaitForState.simps)
         (simp add: peering_conf_def virtualNetworkPeeringCreateFunc_def Let_def)
    with new show ?thesis by simp
  qed
  from success fatal show ?thesis by blast
qed

theorem peering_wait_retries_transient_witness:
  "is_retryable (the (reply_err (flaky_replies 0)))
   \<and> is_retryable (the (reply_err (flaky_replies 1)))
   \<and> reply_err (flaky_replies 2) = None
   \<and> completion (reply_future (flaky_replies 2)) = None
   \<and> (\<Sum>i<2. 15 + (\<lambda>k::nat. 1::nat) i) + 15 \<le> (1800::nat)
   \<and> length [15, 31, 47::nat] = Suc 2
   \<and> WaitForState (peering_conf flaky_replies 1800) (\<lambda>k. 1) 0 []
       = Some (Reached ''Succeeded'', [15, 31, 47])
   \<and> is_retryable (the (reply_err (reset_then_server_error 0)))
   \<and> is_retryable (the (reply_err (reset_then_server_error 1)))
   \<and> reply_err (reset_then_server_error 2)
       = Some \<lparr>Error = ''StatusCode=503'', is_retryable = False\<rparr>
   \<and> Response (reply_future (reset_then_server_error 2)) = Some \<lparr>StatusCode = 503\<rparr>
   \<and> WaitForState (peering_conf reset_then_server_error 1800) (\<lambda>k. 1) 0 []
       = Some (RefreshFailed ''Failed''
                 (Some \<lparr>Error = ''StatusCode=503'', is_retryable = False\<rparr>), [15, 31, 47])"
proof -
  let ?e = "\<lparr>Error = ''StatusCode=503'', is_retryable = False\<rparr>"
  have a: "\<forall>i<2. \<exists>e. reply_err (flaky_replies i) = Some e \<and> is_retryable e"
    by (simp add: flaky_replies_def connection_reset_reply_def)
  have a0: "is_retryable (the (reply_err (flaky_replies 0)))"
    and a1: "is_retryable (the (reply_err (flaky_replies 1)))"
    by (simp_all add: flaky_replies_def connection_reset_reply_def)
  have b: "reply_err (flaky_replies 2) = None"
    by (simp add: flaky_replies_def succeeded_reply_def)
  have c: "completion (reply_future (flaky_replies 2)) = None"
    by (simp add: flaky_replies_def succeeded_reply_def)
  have d: "(\<Sum>i<2. 15 + (\<lambda>k::nat. 1::nat) i) + 15 \<le> (1800::nat)"
    by (simp add: numeral_2_eq_2)
  note inst = peering_wait_retries_transient[OF a d]
  from mp[OF conjunct1[OF inst] conjI[OF b c]]
  obtain issued where l: "length issued = Suc 2"
    and run: "WaitForState (peering_conf flaky_replies 1800) (\<lambda>k. 1) 0 []
        = Some (Reached ''Succeeded'', issued)" by blast
  from run flaky_wait have e: "issued = [15, 31, 47]" by simp
  from l have l': "length [15, 31, 47::nat] = Suc 2" unfolding e .
  from run have r: "WaitForState (peering_conf flaky_replies 1800) (\<lambda>k. 1) 0 []
        = Some (Reached ''Succeeded'', [15, 31, 47])" unfolding e .
  have a': "\<forall>i<2. \<exists>e. reply_err (reset_then_server_error i) = Some e \<and> is_retryable e"
    by (simp add: reset_then_server_error_def connection_reset_reply_def)
  have a0': "is_retryable (the (reply_err (reset_then_server_error 0)))"
    and a1': "is_retryable (the (reply_err (reset_then_server_error 1)))"
    by (simp_all add: reset_then_server_error_def connection_reset_reply_def)
  have b': "reply_err (reset_then_server_error 2) = Some ?e"
    by (simp add: reset_then_server_error_def server_error_reply_def)
  have c': "Response (reply_future (reset_then_server_error 2)) = Some \<lparr>StatusCode = 503\<rparr>"
    by (simp add: reset_then_server_error_def server_error_reply_def)
  have f': "reply_err (reset_then_server_error 2) = Some ?e \<and> \<not> is_retryable ?e
      \<and> Response (reply_future (reset_then_server_error 2)) = Some \<lparr>StatusCode = 503\<rparr>
      \<and> 500 \<le> StatusCode \<lparr>StatusCode = 503\<rparr>"
    using b' c' by simp
  note inst' = peering_wait_retries_transient[OF a' d]
  from mp[OF spec[OF spec[OF conjunct2[OF inst']]] f']
  obtain issued' where run': "WaitForState (peering_conf reset_then_server_error 1800) (\<lambda>k. 1) 0 []
        = Some (RefreshFailed ''Failed'' (Some ?e), issued')" by blast
  from run' reset_then_server_error_wait have e': "issued' = [15, 31, 47]" by simp
  from run' have r': "WaitForState (peering_conf reset_then_server_error 1800) (\<lambda>k. 1) 0 []
        = Some (RefreshFailed ''Failed'' (Some ?e), [15, 31, 47])" unfolding e' .
  show ?thesis
    by (rule conjI[OF a0 conjI[OF a1 conjI[OF b conjI[OF c conjI[OF d conjI[OF l' conjI[OF r
          conjI[OF a0' conjI[OF a1' conjI[OF b' conjI[OF c' r']]]]]]]]]]])
qed

section \<open>Properties of Read and Update\<close>

text \<open>
  C9: when the \<^verbatim>\<open>client.Get\<close> of Read reports not-found, Read clears the ID of the
  resource data and returns no error; on every other failure of that request it returns
  an error and leaves the resource data, and so its ID, as they were.
\<close>

theorem peering_read_get_failure:
  assumes "VirtualNetworkPeeringID m (Id d) = Inr pid" and "get_err resp = Some e"
  shows "(was_not_found resp \<longrightarrow>
            returned (resourceVirtualNetworkPeeringRead m resp d :: 'm outcome) = None \<and>
            data (resourceVirtualNetworkPeeringRead m resp d :: 'm outcome) = SetId d '''' \<and>
            Id (data (resourceVirtualNetworkPeeringRead m resp d :: 'm outcome)) = '''')
       \<and> (\<not> was_not_found resp \<longrightarrow>
            returned (resourceVirtualNetworkPeeringRead m resp d :: 'm outcome)
              = Some (Wrapped ''retrieving'' pid e) \<and>
            data (resourceVirtualNetworkPeeringRead m resp d :: 'm outcome) = d)"
  using assms by (simp add: resourceVirtualNetworkPeeringRead_def SetId_def)

theorem peering_read_get_failure_witness:
  "VirtualNetworkPeeringID example_meta (Id example_data) = Inr example_peering
   \<and> get_err not_found_get = Some \<lparr>Error = ''StatusCode=404'', is_retryable = False\<rparr>
   \<and> was_not_found not_found_get
   \<and> returned (resourceVirtualNetworkPeeringRead example_meta not_found_get example_data
            :: unit outcome) = None
   \<and> Id (data (resourceVirtualNetworkPeeringRead example_meta not_found_get example_data
            :: unit outcome)) = ''''
   \<and> get_err throttled_get = Some \<lparr>Error = ''StatusCode=429'', is_retryable = False\<rparr>
   \<and> \<not> was_not_found throttled_get
   \<and> returned (resourceVirtualNetworkPeeringRead example_meta throttled_get example_data
            :: unit outcome)
       = Some (Wrapped ''retrieving'' example_peering
                 \<lparr>Error = ''StatusCode=429'', is_retryable = False\<rparr>)
   \<and> data (resourceVirtualNetworkPeeringRead example_meta throttled_get example_data
            :: unit outcome) = example_data"
proof -
  have p: "VirtualNetworkPeeringID example_meta (Id example_data) = Inr example_peering"
    by (simp add: example_meta_def)
  have g1: "get_err not_found_get = Some \<lparr>Error = ''StatusCode=404'', is_retryable = False\<rparr>"
    and n1: "was_not_found not_found_get"
    by (simp_all add: not_found_get_def)
  have g2: "get_err throttled_get = Some \<lparr>Error = ''StatusCode=429'', is_retryable = False\<rparr>"
    and n2: "\<not> was_not_found throttled_get"
    by (simp_all add: throttled_get_def)
  from peering_read_get_failure[OF p g1, where ?'m = unit]
       peering_read_get_failure[OF p g2, where ?'m = unit] p g1 n1 g2 n2
  show ?thesis by (simp add: SetId_def)
qed

lemma Read_no_submit:
  "CreateOrUpdate_request p \<notin> set (events (resourceVirtualNetworkPeeringRead m resp d))"
  by (simp add: resourceVirtualNetworkPeeringRead_def Let_def split: option.splits sum.splits)

lemma changed_properties_fields:
  "AllowForwardedTraffic (changed_properties d fetched) =
     (if HasChange d ''allow_forwarded_traffic''
      then Some (Get_bool d ''allow_forwarded_traffic'') else AllowForwardedTraffic fetched)"
  "AllowGatewayTransit (changed_properties d fetched) =
     (if HasChange d ''allow_gateway_transit''
      then Some (Get_bool d ''allow_gateway_transit'') else AllowGatewayTransit fetched)"
  "AllowVirtualNetworkAccess (changed_properties d fetched) =
     (if HasChange d ''allow_virtual_network_access''
      then Some (Get_bool d ''allow_virtual_network_access'')
      else AllowVirtualNetworkAccess fetched)"
  "UseRemoteGateways (changed_properties d fetched) =
     (if HasChange d ''use_remote_gateways''
      then Some (Get_bool d ''use_remote_gateways'') else UseRemoteGateways fetched)"
  "RemoteVirtualNetwork (changed_properties d fetched) = RemoteVirtualNetwork fetched"
  "properties_format.more (changed_properties d fetched) = properties_format.more fetched"
  by (simp_all add: changed_properties_def Let_def)

text \<open>
  C10: whenever Update submits a model, it has fetched the existing properties first, and
  the submitted properties are the fetched ones with exactly those of the four flags
  overwritten whose configuration changed: each flag without a change, the remote virtual
  network and every other field of the properties are submitted as fetched.
\<close>

theorem peering_update_change_framed:
  assumes "CreateOrUpdate_request p
             \<in> set (events (resourceVirtualNetworkPeeringUpdate m existing submit refreshed d))"
  shows "\<exists>fetched rest.
           get_err existing = None \<and> get_properties existing = Some fetched \<and>
           events (resourceVirtualNetworkPeeringUpdate m existing submit refreshed d)
             = Lock # Get_request # CreateOrUpdate_request p # rest \<and>
           CreateOrUpdate_request p \<notin> set rest \<and>
           AllowForwardedTraffic p =
             (if HasChange d ''allow_forwarded_traffic''
              then Some (Get_bool d ''allow_forwarded_traffic'') else AllowForwardedTraffic fetched) \<and>
           AllowGatewayTransit p =
             (if HasChange d ''allow_gateway_transit''
              then Some (Get_bool d ''allow_gateway_transit'') else AllowGatewayTransit fetched) \<and>
           AllowVirtualNetworkAccess p =
             (if HasChange d ''allow_virtual_network_access''
              then Some (Get_bool d ''allow_virtual_network_access'')
              else AllowVirtualNetworkAccess fetched) \<and>
           UseRemoteGateways p =
             (if HasChange d ''use_remote_gateways''
              then Some (Get_bool d ''use_remote_gateways'') else UseRemoteGateways fetched) \<and>
           RemoteVirtualNetwork p = RemoteVirtualNetwork fetched \<and>
           properties_format.more p = properties_format.more fetched"
proof -
  let ?r = "resourceVirtualNetworkPeeringUpdate m existing submit refreshed d"
  from assms obtain pid where pid: "VirtualNetworkPeeringID m (Id d) = Inr pid"
    by (cases "VirtualNetworkPeeringID m (Id d)")
       (auto simp: resourceVirtualNetworkPeeringUpdate_def)
  from assms pid have ge: "get_err existing = None"
    by (cases "get_err existing")
       (auto simp: resourceVirtualNetworkPeeringUpdate_def locked_def after_def)
  from assms pid ge obtain fetched where f: "get_properties existing = Some fetched"
    by (cases "get_properties existing")
       (auto simp: resourceVirtualNetworkPeeringUpdate_def locked_def after_def)
  have "\<exists>rest. events ?r = Lock # Get_request
            # CreateOrUpdate_request (changed_properties d fetched) # rest
          \<and> (\<forall>q. CreateOrUpdate_request q \<notin> set rest)"
    using pid ge f
    by (auto simp: resourceVirtualNetworkPeeringUpdate_def locked_def after_def Let_def
        Read_no_submit split: option.splits)
  then obtain rest where ev: "events ?r = Lock # Get_request
            # CreateOrUpdate_request (changed_properties d fetched) # rest"
    and nr: "\<forall>q. CreateOrUpdate_request q \<notin> set rest" by blast
  from assms ev nr have p: "p = changed_properties d fetched" by auto
  show ?thesis
    using ge f ev nr p changed_properties_fields[of d fetched] by auto
qed

theorem peering_update_change_framed_witness:
  "CreateOrUpdate_request (example_properties\<lparr>AllowGatewayTransit := Some True\<rparr>)
     \<in> set (events (resourceVirtualNetworkPeeringUpdate example_meta found_get succeeded_reply
                       found_get example_data))
   \<and> (\<exists>rest. events (resourceVirtualNetworkPeeringUpdate example_meta found_get
                        succeeded_reply found_get example_data)
        = Lock # Get_request
            # CreateOrUpdate_request (example_properties\<lparr>AllowGatewayTransit := Some True\<rparr>)
            # rest)"
proof -
  have h: "CreateOrUpdate_request (example_properties\<lparr>AllowGatewayTransit := Some True\<rparr>)
     \<in> set (events (resourceVirtualNetworkPeeringUpdate example_meta found_get succeeded_reply
                       found_get example_data))"
    by (simp add: resourceVirtualNetworkPeeringUpdate_def example_meta_def found_get_def
        succeeded_reply_def example_data_def locked_def after_def changed_properties_def
        example_properties_def)
  from peering_update_change_framed[OF h] h show ?thesis by blast
qed

section \<open>Properties of the poller\<close>

text \<open>
  The poller at work: an accepted request is polled at its operation-status URL, and three
  status requests bring the result.
\<close>

lemma accepted_is_polled:
  "PollerFromResponse_spec ''/items/item1'' accepted_response =
     Inr \<lparr>op_target = ''/operations/1'', op_state = InProgress, op_payload = None\<rparr>"
  by (simp add: PollerFromResponse_spec_def accepted_response_def terminal_status_code_def)

lemma three_polls:
  "PollUntilDone_spec three_polls_env
     \<lparr>op_target = ''/operations/1'', op_state = InProgress, op_payload = None\<rparr>
   = Some (Done (Some ''{result}''), 3)"
  by code_simp

text \<open>
  C6: when the response to the submitted request carries a terminal status code (200 or
  201) and no non-terminal status marker, and the request, its encoding and the decoding of
  the body succeed, the poller is created already done with the body as its payload,
  polling it issues no status request and returns that body, the model of the result is the
  decoded body, and \<^verbatim>\<open>UpdateMobilityServiceThenPoll\<close> returns no error after zero status
  requests.
\<close>

theorem UpdateMobilityService_short_circuit:
  assumes "NewRequest c (UpdateMobilityService_options id_ID) = Inr req"
    and "Marshal c req input = Inr req'"
    and "Execute c req' = (Some resp, None)"
    and "Unmarshal c resp = Inr model"
    and "terminal_status_code (StatusCode resp)"
    and "status_marker resp \<noteq> Some InProgress"
  shows "UpdateMobilityService (with_spec_poller c path env) id_ID input =
           Inr (\<lparr>Poller = Some \<lparr>op_target = path, op_state = Succeeded,
                                 op_payload = body resp\<rparr>,
                 HttpResponse = Some resp, Model = model\<rparr>, None)
       \<and> PollUntilDone_spec env
            \<lparr>op_target = path, op_state = Succeeded, op_payload = body resp\<rparr>
           = Some (Done (body resp), 0)
       \<and> UpdateMobilityServiceThenPoll (with_spec_poller c path env) id_ID input
           = Some (Inr (None, 0))"
proof -
  have sub: "UpdateMobilityService (with_spec_poller c path env) id_ID input =
           Inr (\<lparr>Poller = Some \<lparr>op_target = path, op_state = Succeeded,
                                 op_payload = body resp\<rparr>,
                 HttpResponse = Some resp, Model = model\<rparr>, None)"
    using assms
    by (simp add: UpdateMobilityService_def with_spec_poller_def PollerFromResponse_spec_def)
  have poll: "PollUntilDone_spec env
            \<lparr>op_target = path, op_state = Succeeded, op_payload = body resp\<rparr>
           = Some (Done (body resp), 0)"
    by (simp add: PollUntilDone_spec_def)
  have "UpdateMobilityServiceThenPoll (with_spec_poller c path env) id_ID input
           = Some (Inr (None, 0))"
    unfolding UpdateMobilityServiceThenPoll_def sub
    by (simp add: with_spec_poller_def poll poll_error_def)
  with sub poll show ?thesis by simp
qed

theorem UpdateMobilityService_short_circuit_witness:
  "terminal_status_code 200
   \<and> UpdateMobilityService (with_spec_poller immediate_client ''/items/item1'' silent_env)
        ''/items/item1'' ''{}'' =
       Inr (\<lparr>Poller = Some \<lparr>op_target = ''/items/item1'', op_state = Succeeded,
                             op_payload = Some ''{id:item1}''\<rparr>,
             HttpResponse = Some \<lparr>StatusCode = 200, status_marker = None,
                                   body = Some ''{id:item1}'', operation_url = None\<rparr>,
             Model = Some ''{id:item1}''\<rparr>, None)
   \<and> UpdateMobilityServiceThenPoll
        (with_spec_poller immediate_client ''/items/item1'' silent_env) ''/items/item1'' ''{}''
       = Some (Inr (None, 0))"
proof -
  let ?resp = "\<lparr>StatusCode = 200, status_marker = None,
                 body = Some ''{id:item1}'', operation_url = None\<rparr> :: string sdk_response"
  have a: "NewRequest immediate_client (UpdateMobilityService_options ''/items/item1'')
      = Inr (''POST /items/item1/updateMobilityService'')"
    by (simp add: immediate_client_def UpdateMobilityService_options_def)
  have b: "Marshal immediate_client (''POST /items/item1/updateMobilityService'') ''{}''
      = Inr (''POST /items/item1/updateMobilityService {}'')"
    by (simp add: immediate_client_def)
  have c: "Execute immediate_client (''POST /items/item1/updateMobilityService {}'')
      = (Some ?resp, None)"
    by (simp add: immediate_client_def)
  have d: "Unmarshal immediate_client ?resp = Inr (Some ''{id:item1}'')"
    by (simp add: immediate_client_def)
  have e: "terminal_status_code (StatusCode ?resp)"
    by (simp add: terminal_status_code_def)
  have f: "status_marker ?resp \<noteq> Some InProgress" by simp
  from UpdateMobilityService_short_circuit[OF a b c d e f, of "''/items/item1''" silent_env]
  show ?thesis by (simp add: terminal_status_code_def)
qed

section \<open>Properties of the discriminator-tagged variants\<close>

lemma traverse_Inr_iff:
  "(\<exists>ys. traverse f xs = Inr ys) \<longleftrightarrow> list_all (\<lambda>x. \<exists>y. f x = Inr y) xs"
  by (induction xs) (auto split: sum.splits)

lemma traverse_Inl:
  "traverse f xs = Inl e \<Longrightarrow> \<exists>x \<in> set xs. f x = Inl e"
  by (induction xs) (auto split: sum.splits)

lemma marshal_float64_Inr: "(\<exists>j. marshal_float64 f = Inr j) \<longleftrightarrow> is_finite f"
  by (cases f) (simp_all add: marshal_float64_def is_finite_def)

lemma marshal_float64_Inl: "marshal_float64 f = Inl e \<Longrightarrow> e = UnsupportedValueError f \<and> \<not> is_finite f"
  by (cases f) (simp_all add: marshal_float64_def is_finite_def)

lemma marshal_slice_Inr:
  "(\<exists>j. marshal_slice enc s = Inr j) \<longleftrightarrow>
     (case s of None \<Rightarrow> True | Some xs \<Rightarrow> list_all (\<lambda>x. \<exists>y. enc x = Inr y) xs)"
proof (cases s)
  case None
  then show ?thesis by (simp add: marshal_slice_def)
next
  case (Some xs)
  have "(\<exists>j. marshal_slice enc (Some xs) = Inr j) \<longleftrightarrow> (\<exists>ys. traverse enc xs = Inr ys)"
    by (auto simp: marshal_slice_def split: sum.splits)
  with Some show ?thesis by (simp add: traverse_Inr_iff)
qed

lemma marshal_slice_Inl:
  "marshal_slice enc s = Inl e \<Longrightarrow> \<exists>xs. s = Some xs \<and> (\<exists>x \<in> set xs. enc x = Inl e)"
  by (cases s) (auto simp: marshal_slice_def split: sum.splits dest: traverse_Inl)

lemma marshal_values_Inr:
  "(\<exists>j. omitempty_field ''values'' (marshal_slice (marshal_slice marshal_float64))
            (NumberInRange_Values s) = Inr j) \<longleftrightarrow> values_finite s"
proof -
  have row: "(\<exists>y. marshal_slice marshal_float64 r = Inr y) \<longleftrightarrow>
      (case r of None \<Rightarrow> True | Some fs \<Rightarrow> list_all is_finite fs)" for r
    by (simp add: marshal_slice_Inr marshal_float64_Inr split: option.splits)
  have rows: "(\<exists>j. marshal_slice (marshal_slice marshal_float64) v = Inr j) \<longleftrightarrow>
      (case v of None \<Rightarrow> True
       | Some rs \<Rightarrow> list_all (\<lambda>r. case r of None \<Rightarrow> True | Some fs \<Rightarrow> list_all is_finite fs) rs)"
    for v
    unfolding marshal_slice_Inr[of "marshal_slice marshal_float64" v] row ..
  show ?thesis
  proof (cases "NumberInRange_Values s")
    case None
    then show ?thesis by (simp add: omitempty_field_def values_finite_def)
  next
    case (Some v)
    have "(\<exists>j. omitempty_field ''values'' (marshal_slice (marshal_slice marshal_float64))
            (Some v) = Inr j) \<longleftrightarrow> (\<exists>j. marshal_slice (marshal_slice marshal_float64) v = Inr j)"
      by (auto simp: omitempty_field_def split: sum.splits)
    with Some rows[of v] show ?thesis
      by (simp add: values_finite_def split: option.splits)
  qed
qed

lemma marshal_values_Inl:
  assumes "omitempty_field ''values'' (marshal_slice (marshal_slice marshal_float64))
            (NumberInRange_Values s) = Inl e"
  shows "\<exists>f. e = UnsupportedValueError f \<and> \<not> is_finite f"
proof -
  from assms obtain v where "marshal_slice (marshal_slice marshal_float64) v = Inl e"
    by (auto simp: omitempty_field_def split: option.splits sum.splits)
  then obtain r where "marshal_slice marshal_float64 r = Inl e"
    by (auto dest: marshal_slice_Inl)
  then obtain f where "marshal_float64 f = Inl e"
    by (auto dest: marshal_slice_Inl)
  then show ?thesis by (auto dest: marshal_float64_Inl)
qed

lemma with_discriminator_object:
  "with_discriminator t k v (Inr (JObject m)) = Inr (JObject (fmupd k (JString v) m))"
  by (simp add: with_discriminator_def json_Unmarshal_map_def json_Marshal_map_def)

lemma with_discriminator_error:
  "with_discriminator t k v (Inl e) = Inl (Marshaling t e)"
  by (simp add: with_discriminator_def)

lemma marshal_struct_2:
  "marshal_struct [a, b] =
     (case a of Inl e \<Rightarrow> Inl e
      | Inr ms \<Rightarrow> (case b of Inl e \<Rightarrow> Inl e
                    | Inr ns \<Rightarrow> Inr (JObject (fmap_of_list (ms @ ns)))))"
  by (simp add: marshal_struct_def split: sum.splits)

lemma marshal_struct_1:
  "marshal_struct [a] =
     (case a of Inl e \<Rightarrow> Inl e | Inr ms \<Rightarrow> Inr (JObject (fmap_of_list ms)))"
  by (simp add: marshal_struct_def split: sum.splits)

lemma omitempty_string: "\<exists>ms. omitempty_field name marshal_string p = Inr ms"
  by (cases p) (simp_all add: omitempty_field_def marshal_string_def)

lemma omitempty_strings:
  "\<exists>ms. omitempty_field name (marshal_slice marshal_string) p = Inr ms"
proof (cases p)
  case None
  then show ?thesis by (simp add: omitempty_field_def)
next
  case (Some s)
  have "\<exists>j. marshal_slice marshal_string s = Inr j"
    by (simp add: marshal_slice_Inr marshal_string_def list_all_iff split: option.splits)
  with Some show ?thesis by (auto simp: omitempty_field_def)
qed

text \<open>
  C7 as stated fails: \<^verbatim>\<open>MarshalJSON\<close> does not always succeed. A
  \<^verbatim>\<open>NumberInRangeAdvancedFilter\<close> whose values contain a NaN makes \<^verbatim>\<open>json.Marshal\<close>
  fail, and \<^verbatim>\<open>MarshalJSON\<close> returns that error and no document.
\<close>

theorem NumberInRange_MarshalJSON_NaN_counterexample:
  "NumberInRangeAdvancedFilter_MarshalJSON nan_filter =
     Inl (Marshaling ''NumberInRangeAdvancedFilter'' (UnsupportedValueError NaN))"
  by (simp add: NumberInRangeAdvancedFilter_MarshalJSON_def nan_filter_def marshal_struct_def
      omitempty_field_def marshal_slice_def marshal_float64_def with_discriminator_def)

text \<open>
  C7 (amended): \<^verbatim>\<open>MarshalJSON\<close> returns either the encoder's error for a field, wrapped,
  or a JSON object that binds the discriminator key to the constant of the variant. For
  \<^verbatim>\<open>NumberInRangeAdvancedFilter\<close> it is the error exactly when some number of the values
  is not finite, and otherwise an object with \<^verbatim>\<open>operatorType\<close> bound to
  \<^verbatim>\<open>NumberInRange\<close>; for \<^verbatim>\<open>StringContainsAdvancedFilter\<close> it is always an object with
  \<^verbatim>\<open>operatorType\<close> bound to \<^verbatim>\<open>StringContains\<close>; for
  \<^verbatim>\<open>StorageBlobDeadLetterDestination\<close> it is an object with \<^verbatim>\<open>endpointType\<close> bound to
  \<^verbatim>\<open>StorageBlob\<close> when the properties are nil or can be encoded, and the error when they
  cannot.
\<close>

theorem MarshalJSON_injects_discriminator:
  "(values_finite s \<longrightarrow>
      (\<exists>m. NumberInRangeAdvancedFilter_MarshalJSON s = Inr (JObject m) \<and>
           fmlookup m ''operatorType'' = Some (JString ''NumberInRange'')))
   \<and> (\<not> values_finite s \<longrightarrow>
      (\<exists>f. \<not> is_finite f \<and> NumberInRangeAdvancedFilter_MarshalJSON s =
           Inl (Marshaling ''NumberInRangeAdvancedFilter'' (UnsupportedValueError f))))
   \<and> (\<exists>m. StringContainsAdvancedFilter_MarshalJSON t = Inr (JObject m) \<and>
           fmlookup m ''operatorType'' = Some (JString ''StringContains''))
   \<and> ((case Properties b of None \<Rightarrow> True | Some p \<Rightarrow> \<exists>j. marshal_properties p = Inr j) \<longrightarrow>
      (\<exists>m. StorageBlobDeadLetterDestination_MarshalJSON marshal_properties b = Inr (JObject m) \<and>
           fmlookup m ''endpointType'' = Some (JString ''StorageBlob'')))
   \<and> ((\<exists>p e. Properties b = Some p \<and> marshal_properties p = Inl e) \<longrightarrow>
      (\<exists>e. StorageBlobDeadLetterDestination_MarshalJSON marshal_properties b =
           Inl (Marshaling ''StorageBlobDeadLetterDestination'' e)))"
proof (intro conjI impI)
  let ?vals = "omitempty_field ''values'' (marshal_slice (marshal_slice marshal_float64))
      (NumberInRange_Values s)"
  obtain ks where ks: "omitempty_field ''key'' marshal_string (NumberInRange_Key s) = Inr ks"
    using omitempty_string by blast
  {
    assume "values_finite s"
    then obtain vs where "?vals = Inr vs" using marshal_values_Inr[of s] by blast
    with ks show "\<exists>m. NumberInRangeAdvancedFilter_MarshalJSON s = Inr (JObject m) \<and>
           fmlookup m ''operatorType'' = Some (JString ''NumberInRange'')"
      by (simp add: NumberInRangeAdvancedFilter_MarshalJSON_def marshal_struct_2
          with_discriminator_object)
  }
  {
    assume "\<not> values_finite s"
    then obtain e where e: "?vals = Inl e"
      using marshal_values_Inr[of s] by (cases ?vals) auto
    then obtain f where "e = UnsupportedValueError f" "\<not> is_finite f"
      using marshal_values_Inl by blast
    with e show "\<exists>f. \<not> is_finite f \<and> NumberInRangeAdvancedFilter_MarshalJSON s =
           Inl (Marshaling ''NumberInRangeAdvancedFilter'' (UnsupportedValueError f))"
      by (auto simp: NumberInRangeAdvancedFilter_MarshalJSON_def marshal_struct_2
          with_discriminator_error)
  }
  obtain vs where vs: "omitempty_field ''values'' (marshal_slice marshal_string)
      (StringContains_Values t) = Inr vs"
    using omitempty_strings by blast
  obtain ts where ts: "omitempty_field ''key'' marshal_string (StringContains_Key t) = Inr ts"
    using omitempty_string by blast
  from vs ts show "\<exists>m. StringContainsAdvancedFilter_MarshalJSON t = Inr (JObject m) \<and>
           fmlookup m ''operatorType'' = Some (JString ''StringContains'')"
    by (simp add: StringContainsAdvancedFilter_MarshalJSON_def marshal_struct_2
        with_discriminator_object)
  {
    assume "case Properties b of None \<Rightarrow> True | Some p \<Rightarrow> \<exists>j. marshal_properties p = Inr j"
    then obtain ps where "omitempty_field ''properties'' marshal_properties (Properties b) = Inr ps"
      by (auto simp: omitempty_field_def split: option.splits)
    then show "\<exists>m. StorageBlobDeadLetterDestination_MarshalJSON marshal_properties b
           = Inr (JObject m) \<and> fmlookup m ''endpointType'' = Some (JString ''StorageBlob'')"
      by (simp add: StorageBlobDeadLetterDestination_MarshalJSON_def marshal_struct_1
          with_discriminator_object)
  }
  {
    assume "\<exists>p e. Properties b = Some p \<and> marshal_properties p = Inl e"
    then obtain e where "omitempty_field ''properties'' marshal_properties (Properties b) = Inl e"
      by (auto simp: omitempty_field_def)
    then show "\<exists>e. StorageBlobDeadLetterDestination_MarshalJSON marshal_properties b =
           Inl (Marshaling ''StorageBlobDeadLetterDestination'' e)"
      by (simp add: StorageBlobDeadLetterDestination_MarshalJSON_def marshal_struct_1
          with_discriminator_error)
  }
qed

theorem MarshalJSON_injects_discriminator_witness:
  "values_finite range_filter
   \<and> (\<exists>m. NumberInRangeAdvancedFilter_MarshalJSON range_filter = Inr (JObject m) \<and>
           fmlookup m ''operatorType'' = Some (JString ''NumberInRange''))
   \<and> \<not> values_finite nan_filter
   \<and> (\<exists>f. \<not> is_finite f \<and> NumberInRangeAdvancedFilter_MarshalJSON nan_filter =
           Inl (Marshaling ''NumberInRangeAdvancedFilter'' (UnsupportedValueError f)))
   \<and> (\<exists>m. StringContainsAdvancedFilter_MarshalJSON suffix_filter = Inr (JObject m) \<and>
           fmlookup m ''operatorType'' = Some (JString ''StringContains''))
   \<and> (\<exists>m. StorageBlobDeadLetterDestination_MarshalJSON marshal_string blob_destination
             = Inr (JObject m) \<and>
           fmlookup m ''endpointType'' = Some (JString ''StorageBlob''))"
proof -
  note good = MarshalJSON_injects_discriminator
    [where s = range_filter and t = suffix_filter and b = blob_destination
       and marshal_properties = marshal_string]
  note bad = MarshalJSON_injects_discriminator
    [where s = nan_filter and t = suffix_filter and b = blob_destination
       and marshal_properties = marshal_string]
  have vf: "values_finite range_filter"
    by (simp add: values_finite_def range_filter_def is_finite_def)
  have nf: "\<not> values_finite nan_filter"
    by (simp add: values_finite_def nan_filter_def is_finite_def)
  have props: "case Properties blob_destination of
      None \<Rightarrow> True | Some p \<Rightarrow> \<exists>j. marshal_string p = Inr j"
    by (simp add: blob_destination_def marshal_string_def)
  have a: "\<exists>m. NumberInRangeAdvancedFilter_MarshalJSON range_filter = Inr (JObject m) \<and>
           fmlookup m ''operatorType'' = Some (JString ''NumberInRange'')"
    by (rule mp[OF conjunct1[OF good] vf])
  have b: "\<exists>f. \<not> is_finite f \<and> NumberInRangeAdvancedFilter_MarshalJSON nan_filter =
           Inl (Marshaling ''NumberInRangeAdvancedFilter'' (UnsupportedValueError f))"
    by (rule mp[OF conjunct1[OF conjunct2[OF bad]] nf])
  have c: "\<exists>m. StringContainsAdvancedFilter_MarshalJSON suffix_filter = Inr (JObject m) \<and>
           fmlookup m ''operatorType'' = Some (JString ''StringContains'')"
    by (rule conjunct1[OF conjunct2[OF conjunct2[OF good]]])
  have d: "\<exists>m. StorageBlobDeadLetterDestination_MarshalJSON marshal_string blob_destination
             = Inr (JObject m) \<and>
           fmlookup m ''endpointType'' = Some (JString ''StorageBlob'')"
    by (rule mp[OF conjunct1[OF conjunct2[OF conjunct2[OF conjunct2[OF good]]]] props])
  show ?thesis
    by (rule conjI[OF vf conjI[OF a conjI[OF nf conjI[OF b conjI[OF c d]]]]])
qed

section \<open>Properties of the Location Topic Type ID\<close>

lemma split_on_no_sep: "sep \<notin> set a \<Longrightarrow> split_on sep a = [a]"
  by (induction a) auto

lemma split_on_append:
  "sep \<notin> set a \<Longrightarrow> split_on sep (a @ sep # rest) = a # split_on sep rest"
  by (induction a) auto

lemma to_lower_slash: "to_lower c = CHR ''/'' \<longleftrightarrow> c = CHR ''/''"
proof
  assume l: "to_lower c = CHR ''/''"
  show "c = CHR ''/''"
  proof (cases "65 \<le> (of_char c :: nat) \<and> (of_char c :: nat) \<le> 90")
    case True
    with l have "char_of (of_char c + 32 :: nat) = CHR ''/''"
      by (simp add: to_lower_def Let_def)
    then have "(of_char (char_of (of_char c + 32 :: nat)) :: nat) = of_char CHR ''/''"
      by simp
    with True show ?thesis by simp
  next
    case False
    with l show ?thesis by (auto simp: to_lower_def Let_def)
  qed
next
  assume "c = CHR ''/''"
  then show "to_lower c = CHR ''/''" by (simp add: to_lower_def)
qed

lemma EqualFold_no_sep:
  assumes "EqualFold a fixed" and "CHR ''/'' \<notin> set fixed"
  shows "CHR ''/'' \<notin> set a"
proof
  assume "CHR ''/'' \<in> set a"
  then have "to_lower CHR ''/'' \<in> to_lower ` set a" by (rule imageI)
  also have "to_lower ` set a = to_lower ` set fixed"
    using assms(1) by (metis EqualFold_def set_map)
  finally obtain c where "c \<in> set fixed" "to_lower c = to_lower CHR ''/''" by auto
  then have "c = CHR ''/''" by (simp add: to_lower_slash[of "CHR ''/''", simplified] to_lower_slash)
  with \<open>c \<in> set fixed\<close> assms(2) show False by simp
qed

lemma split_path:
  assumes "CHR ''/'' \<notin> set a" "CHR ''/'' \<notin> set s" "CHR ''/'' \<notin> set b" "CHR ''/'' \<notin> set c"
    "CHR ''/'' \<notin> set d" "CHR ''/'' \<notin> set l" "CHR ''/'' \<notin> set e" "CHR ''/'' \<notin> set t"
  shows "split_on CHR ''/'' (''/'' @ a @ ''/'' @ s @ ''/'' @ b @ ''/'' @ c @ ''/'' @ d @ ''/''
            @ l @ ''/'' @ e @ ''/'' @ t) = [[], a, s, b, c, d, l, e, t]"
  using assms by (simp add: split_on_append split_on_no_sep)

lemma parse_path:
  assumes "CHR ''/'' \<notin> set s" "s \<noteq> []" "CHR ''/'' \<notin> set l" "l \<noteq> []"
    "CHR ''/'' \<notin> set t" "t \<noteq> []"
    and "a = ''subscriptions'' \<or> (ins \<and> EqualFold a ''subscriptions'')"
    and "b = ''providers'' \<or> (ins \<and> EqualFold b ''providers'')"
    and "c = ''Microsoft.EventGrid'' \<or> (ins \<and> EqualFold c ''Microsoft.EventGrid'')"
    and "d = ''locations'' \<or> (ins \<and> EqualFold d ''locations'')"
    and "e = ''topicTypes'' \<or> (ins \<and> EqualFold e ''topicTypes'')"
  shows "LocationTopicTypeId_of_parsed input (Parse LocationTopicTypeId_Segments
           (''/'' @ a @ ''/'' @ s @ ''/'' @ b @ ''/'' @ c @ ''/'' @ d @ ''/''
            @ l @ ''/'' @ e @ ''/'' @ t) ins)
         = Inr \<lparr>SubscriptionId = s, Location = l, TopicTypeName = t\<rparr>"
proof -
  have a: "CHR ''/'' \<notin> set a" using assms(7) by (auto dest: EqualFold_no_sep)
  have b: "CHR ''/'' \<notin> set b" using assms(8) by (auto dest: EqualFold_no_sep)
  have c: "CHR ''/'' \<notin> set c" using assms(9) by (auto dest: EqualFold_no_sep)
  have d: "CHR ''/'' \<notin> set d" using assms(10) by (auto dest: EqualFold_no_sep)
  have e: "CHR ''/'' \<notin> set e" using assms(11) by (auto dest: EqualFold_no_sep)
  have sp: "split_on CHR ''/'' (''/'' @ a @ ''/'' @ s @ ''/'' @ b @ ''/'' @ c @ ''/'' @ d @ ''/''
            @ l @ ''/'' @ e @ ''/'' @ t) = [[], a, s, b, c, d, l, e, t]"
    by (rule split_path[OF a assms(1) b c d assms(3) e assms(5)])
  have ps: "parse_segments ins LocationTopicTypeId_Segments [a, s, b, c, d, l, e, t] =
      Inr [(''staticSubscriptions'', ''subscriptions''), (''subscriptionId'', s),
           (''staticProviders'', ''providers''),
           (''staticMicrosoftEventGrid'', ''Microsoft.EventGrid''),
           (''staticLocations'', ''locations''), (''location'', l),
           (''staticTopicTypes'', ''topicTypes''), (''topicTypeName'', t)]"
    using assms(2,4,6,7,8,9,10,11)
    by (simp add: LocationTopicTypeId_Segments_def parse_segment_def)
  show ?thesis
    unfolding Parse_def sp
    by (simp add: ps LocationTopicTypeId_of_parsed_def)
qed

text \<open>
  C8: for every Location Topic Type ID whose three values are well-formed (not empty, no
  path separator), parsing the formatted ID succeeds and returns the ID; and parsing
  insensitively accepts every path whose static segments differ from the canonical ones
  only in letter case, and returns the same ID.
\<close>

theorem LocationTopicTypeID_roundtrip:
  assumes "well_formed_value (SubscriptionId x)" and "well_formed_value (Location x)"
    and "well_formed_value (TopicTypeName x)"
  shows "ParseLocationTopicTypeID (LocationTopicTypeId_ID x) = Inr x
       \<and> (\<forall>a b c d e.
            EqualFold a ''subscriptions'' \<and> EqualFold b ''providers''
            \<and> EqualFold c ''Microsoft.EventGrid'' \<and> EqualFold d ''locations''
            \<and> EqualFold e ''topicTypes'' \<longrightarrow>
            ParseLocationTopicTypeIDInsensitively
              (''/'' @ a @ ''/'' @ SubscriptionId x @ ''/'' @ b @ ''/'' @ c @ ''/'' @ d @ ''/''
                 @ Location x @ ''/'' @ e @ ''/'' @ TopicTypeName x) = Inr x)"
proof (intro conjI allI impI)
  from assms have wf: "CHR ''/'' \<notin> set (SubscriptionId x)" "SubscriptionId x \<noteq> []"
    "CHR ''/'' \<notin> set (Location x)" "Location x \<noteq> []"
    "CHR ''/'' \<notin> set (TopicTypeName x)" "TopicTypeName x \<noteq> []"
    by (simp_all add: well_formed_value_def)
  have x: "\<lparr>SubscriptionId = SubscriptionId x, Location = Location x,
            TopicTypeName = TopicTypeName x\<rparr> = x" by simp
  have id: "LocationTopicTypeId_ID x =
      ''/'' @ ''subscriptions'' @ ''/'' @ SubscriptionId x @ ''/'' @ ''providers'' @ ''/''
        @ ''Microsoft.EventGrid'' @ ''/'' @ ''locations'' @ ''/'' @ Location x @ ''/''
        @ ''topicTypes'' @ ''/'' @ TopicTypeName x"
    by (simp add: LocationTopicTypeId_ID_def)
  show "ParseLocationTopicTypeID (LocationTopicTypeId_ID x) = Inr x"
    unfolding ParseLocationTopicTypeID_def
    apply (subst (2) id)
    apply (subst parse_path[OF wf])
    apply (simp_all add: x)
    done
  fix a b c d e
  assume fold: "EqualFold a ''subscriptions'' \<and> EqualFold b ''providers''
            \<and> EqualFold c ''Microsoft.EventGrid'' \<and> EqualFold d ''locations''
            \<and> EqualFold e ''topicTypes''"
  show "ParseLocationTopicTypeIDInsensitively
              (''/'' @ a @ ''/'' @ SubscriptionId x @ ''/'' @ b @ ''/'' @ c @ ''/'' @ d @ ''/''
                 @ Location x @ ''/'' @ e @ ''/'' @ TopicTypeName x) = Inr x"
    unfolding ParseLocationTopicTypeIDInsensitively_def
    apply (subst parse_path[OF wf])
    using fold apply (simp_all add: x)
    done
qed

theorem LocationTopicTypeID_roundtrip_witness:
  "well_formed_value (SubscriptionId storage_topic_type)
   \<and> well_formed_value (Location storage_topic_type)
   \<and> well_formed_value (TopicTypeName storage_topic_type)
   \<and> ParseLocationTopicTypeID (LocationTopicTypeId_ID storage_topic_type)
       = Inr storage_topic_type
   \<and> EqualFold ''SUBSCRIPTIONS'' ''subscriptions''
   \<and> EqualFold ''microsoft.eventgrid'' ''Microsoft.EventGrid''
   \<and> ParseLocationTopicTypeIDInsensitively
        ''/SUBSCRIPTIONS/sub-1/Providers/microsoft.eventgrid/locations/westeurope/topictypes/Microsoft.Storage''
       = Inr storage_topic_type"
proof -
  have w1: "well_formed_value (SubscriptionId storage_topic_type)"
    and w2: "well_formed_value (Location storage_topic_type)"
    and w3: "well_formed_value (TopicTypeName storage_topic_type)"
    by (simp_all add: well_formed_value_def storage_topic_type_def NewLocationTopicTypeID_def)
  note rt = LocationTopicTypeID_roundtrip[OF w1 w2 w3]
  have f1: "EqualFold ''SUBSCRIPTIONS'' ''subscriptions''" by code_simp
  have f2: "EqualFold ''Providers'' ''providers''" by code_simp
  have f3: "EqualFold ''microsoft.eventgrid'' ''Microsoft.EventGrid''" by code_simp
  have f4: "EqualFold ''locations'' ''locations''" by code_simp
  have f5: "EqualFold ''topictypes'' ''topicTypes''" by code_simp
  have sens: "ParseLocationTopicTypeID (LocationTopicTypeId_ID storage_topic_type)
       = Inr storage_topic_type"
    by (rule conjunct1[OF rt])
  have "ParseLocationTopicTypeIDInsensitively
      (''/'' @ ''SUBSCRIPTIONS'' @ ''/'' @ SubscriptionId storage_topic_type @ ''/''
         @ ''Providers'' @ ''/'' @ ''microsoft.eventgrid'' @ ''/'' @ ''locations'' @ ''/''
         @ Location storage_topic_type @ ''/'' @ ''topictypes'' @ ''/''
         @ TopicTypeName storage_topic_type) = Inr storage_topic_type"
    using conjunct2[OF rt] f1 f2 f3 f4 f5 by blast
  then have ins: "ParseLocationTopicTypeIDInsensitively
        ''/SUBSCRIPTIONS/sub-1/Providers/microsoft.eventgrid/locations/westeurope/topictypes/Microsoft.Storage''
       = Inr storage_topic_type"
    by (simp add: storage_topic_type_def NewLocationTopicTypeID_def)
  show ?thesis
    by (rule conjI[OF w1 conjI[OF w2 conjI[OF w3 conjI[OF sens conjI[OF f1 conjI[OF f3 ins]]]]]])
qed

section \<open>Properties of the peering mutex\<close>

lemma discipline_Held_body: "Lock \<notin> set evs \<Longrightarrow> Unlock \<notin> set evs \<Longrightarrow> discipline Held evs = Some Held"
proof (induction evs)
  case Nil
  then show ?case by simp
next
  case (Cons e evs)
  then show ?case by (cases e) simp_all
qed

lemma discipline_append:
  "discipline q (xs @ ys) = (case discipline q xs of None \<Rightarrow> None | Some q' \<Rightarrow> discipline q' ys)"
  by (induction xs arbitrary: q) (auto split: option.splits)

lemma locked_disciplined:
  assumes "Lock \<notin> set (events r)" "Unlock \<notin> set (events r)"
  shows "discipline Free (events (locked r)) = Some Released"
  using assms by (simp add: locked_def discipline_append discipline_Held_body)

lemma Read_events:
  "events (resourceVirtualNetworkPeeringRead m resp d) = [] \<or>
   events (resourceVirtualNetworkPeeringRead m resp d) = [Get_request]"
  by (simp add: resourceVirtualNetworkPeeringRead_def Let_def split: option.splits sum.splits)

lemma Read_no_lock:
  "Lock \<notin> set (events (resourceVirtualNetworkPeeringRead m resp d))"
  "Unlock \<notin> set (events (resourceVirtualNetworkPeeringRead m resp d))"
  by (simp_all add: resourceVirtualNetworkPeeringRead_def Let_def split: option.splits sum.splits)

lemma after_events: "events (after evs r) = evs @ events r"
  by (simp add: after_def)

lemma refresh_events_no_lock:
  "Lock \<notin> set (refresh_events model reply)" "Unlock \<notin> set (refresh_events model reply)"
  by (simp_all add: refresh_events_def)

lemma Update_disciplined:
  "lock_disciplined (events (resourceVirtualNetworkPeeringUpdate m existing submit refreshed d))"
proof (cases "VirtualNetworkPeeringID m (Id d)")
  case (Inl e)
  then show ?thesis
    by (simp add: resourceVirtualNetworkPeeringUpdate_def lock_disciplined_def)
next
  case (Inr pid)
  then obtain body where
    upd: "resourceVirtualNetworkPeeringUpdate m existing submit refreshed d = locked body"
    and nl: "Lock \<notin> set (events body)" "Unlock \<notin> set (events body)"
    by (auto simp: resourceVirtualNetworkPeeringUpdate_def after_events Let_def Read_no_lock
        split: option.splits)
  then show ?thesis
    by (simp add: lock_disciplined_def locked_disciplined)
qed

lemma Delete_disciplined:
  "lock_disciplined (events (resourceVirtualNetworkPeeringDelete m deletion d :: 'm outcome))"
proof (cases "VirtualNetworkPeeringID m (Id d)")
  case (Inl e)
  then show ?thesis
    by (simp add: resourceVirtualNetworkPeeringDelete_def lock_disciplined_def)
next
  case (Inr pid)
  then obtain body :: "'m outcome" where
    del: "resourceVirtualNetworkPeeringDelete m deletion d = locked body"
    and nl: "Lock \<notin> set (events body)" "Unlock \<notin> set (events body)"
    by (auto simp: resourceVirtualNetworkPeeringDelete_def after_events split: option.splits)
  then show ?thesis
    by (simp add: lock_disciplined_def locked_disciplined)
qed

lemma Create_disciplined:
  assumes "resourceVirtualNetworkPeeringCreate WaitForStateContext m existing replies remaining
             refreshed d = Some r"
  shows "lock_disciplined (events r)"
proof -
  let ?raw = "Get_string d ''virtual_network_id''"
  let ?vid = "VirtualNetworkID m (if ?raw = []
      then VirtualNetworkId_ID m
             \<lparr>vnet_SubscriptionId = Account_SubscriptionId m,
              vnet_ResourceGroup = Get_string d ''resource_group_name'',
              vnet_Name = Get_string d ''virtual_network_name''\<rparr>
      else ?raw)"
  show ?thesis
  proof (cases ?vid)
    case (Inl e)
    with assms show ?thesis
      by (auto simp: resourceVirtualNetworkPeeringCreate_def Let_def lock_disciplined_def)
  next
    case (Inr vid)
    with assms consider (early) "events r = [Get_request]"
      | (waited) body where "events r = Get_request # events (locked body)"
          "Lock \<notin> set (events body)" "Unlock \<notin> set (events body)"
      by (auto simp: resourceVirtualNetworkPeeringCreate_def Let_def after_events
          refresh_events_no_lock Read_no_lock
          split: if_splits option.splits prod.splits wait_result.splits)
    then show ?thesis
    proof cases
      case early
      then show ?thesis by (simp add: lock_disciplined_def)
    next
      case waited
      then show ?thesis
        using locked_disciplined[of body] by (simp add: lock_disciplined_def)
    qed
  qed
qed

lemma peering_call_disciplined: "peering_call evs \<Longrightarrow> lock_disciplined evs"
  by (induction rule: peering_call.induct)
     (simp_all add: Create_disciplined Update_disciplined Delete_disciplined)

lemma events_of_Cons:
  "events_of u ((t, e) # s) = (if t = u then e # events_of u s else events_of u s)"
  by (simp add: events_of_def)

lemma mutating_runs_Cons:
  "mutating_runs ((t, e) # s) =
     (if mutating e
      then (case mutating_runs s of [] \<Rightarrow> [t] | y # ys \<Rightarrow> if t = y then y # ys else t # y # ys)
      else mutating_runs s)"
  by (simp add: mutating_runs_def remdups_adj_Cons)

lemma mutating_needs_Held:
  "mutating e \<Longrightarrow> discipline_step q e = Some q' \<Longrightarrow> q = Held \<and> q' = Held"
  by (cases e; cases q) simp_all

lemma quiet_step:
  "\<not> mutating e \<Longrightarrow> e \<noteq> Lock \<Longrightarrow> e \<noteq> Unlock \<Longrightarrow> discipline_step q e = Some q' \<Longrightarrow> q' = q"
  by (cases e; cases q) simp_all

lemma quiet_mutex:
  "e \<noteq> Lock \<Longrightarrow> e \<noteq> Unlock \<Longrightarrow> mutex_step h (t, e) = Some h"
  by (cases e) simp_all

lemma serial_invariant:
  assumes "\<forall>u. (st u = Held) = (h = Some u)"
    and "\<forall>u. discipline (st u) (events_of u s) \<noteq> None"
    and "mutex_run h s"
  shows "distinct (mutating_runs s)
       \<and> (\<forall>u \<in> set (mutating_runs s). st u \<noteq> Released)
       \<and> (\<forall>u. h = Some u \<longrightarrow> u \<in> set (mutating_runs s) \<longrightarrow> hd (mutating_runs s) = u)"
  using assms
proof (induction s arbitrary: h st)
  case Nil
  show ?case by (simp add: mutating_runs_def)
next
  case (Cons x s)
  obtain t e where x: "x = (t, e)" by (cases x)
  from Cons.prems(2) have "discipline (st t) (e # events_of t s) \<noteq> None"
    unfolding x by (metis events_of_Cons)
  then obtain q' where step: "discipline_step (st t) e = Some q'"
    and rest: "discipline q' (events_of t s) \<noteq> None"
    by (auto split: option.splits)
  from Cons.prems(3) obtain h' where mstep: "mutex_step h (t, e) = Some h'"
    and run': "mutex_run h' s"
    unfolding x by (auto split: option.splits)
  let ?st = "st(t := q')"
  have disc': "\<forall>u. discipline (?st u) (events_of u s) \<noteq> None"
  proof
    fix u
    show "discipline (?st u) (events_of u s) \<noteq> None"
    proof (cases "u = t")
      case True
      with rest show ?thesis by simp
    next
      case False
      from Cons.prems(2) have "discipline (st u) (events_of u ((t, e) # s)) \<noteq> None"
        unfolding x by blast
      with False show ?thesis by (simp add: events_of_Cons)
    qed
  qed
  have cons': "\<forall>u. (?st u = Held) = (h' = Some u)"
  proof (cases "e = Lock \<or> e = Unlock")
    case True
    then show ?thesis
    proof
      assume e: "e = Lock"
      with step have "st t = Free" "q' = Held" by (cases "st t"; simp)+
      moreover from e mstep have "h = None" "h' = Some t" by (auto split: if_splits)
      ultimately show ?thesis using Cons.prems(1) by auto
    next
      assume e: "e = Unlock"
      with step have "st t = Held" "q' = Released" by (cases "st t"; simp)+
      moreover from e mstep have "h = Some t" "h' = None" by (auto split: if_splits)
      ultimately show ?thesis using Cons.prems(1) by auto
    qed
  next
    case False
    then have ne: "e \<noteq> Lock" "e \<noteq> Unlock" by simp_all
    from quiet_mutex[OF ne] mstep have h': "h' = h" by simp
    have "q' = st t"
    proof (cases "mutating e")
      case True
      from mutating_needs_Held[OF True step] show ?thesis by simp
    next
      case False
      from quiet_step[OF False ne step] show ?thesis .
    qed
    with h' Cons.prems(1) show ?thesis by simp
  qed
  note IH = Cons.IH[OF cons' disc' run']
  from IH have d': "distinct (mutating_runs s)"
    and r': "\<forall>u \<in> set (mutating_runs s). ?st u \<noteq> Released"
    and f': "\<forall>u. h' = Some u \<longrightarrow> u \<in> set (mutating_runs s) \<longrightarrow> hd (mutating_runs s) = u"
    by blast+
  show ?case
  proof (cases "mutating e")
    case True
    from mutating_needs_Held[OF True step] have held: "st t = Held" "q' = Held" by simp_all
    then have same: "?st = st" by auto
    from True have ne: "e \<noteq> Lock" "e \<noteq> Unlock" by auto
    from quiet_mutex[OF ne] mstep have h': "h' = h" by simp
    from held Cons.prems(1) have h: "h = Some t" by simp
    from r' have r: "\<forall>u \<in> set (mutating_runs s). st u \<noteq> Released"
      unfolding same .
    show ?thesis
    proof (cases "t \<in> set (mutating_runs s)")
      case True
      with f' h h' have "hd (mutating_runs s) = t" by simp
      with True obtain ys where "mutating_runs s = t # ys" by (cases "mutating_runs s") auto
      with \<open>mutating e\<close> have "mutating_runs (x # s) = mutating_runs s"
        unfolding x by (simp add: mutating_runs_Cons)
      with d' r f' h' show ?thesis by simp
    next
      case False
      with \<open>mutating e\<close> have "mutating_runs (x # s) = t # mutating_runs s"
        unfolding x by (auto simp: mutating_runs_Cons split: list.splits)
      with False d' r held h show ?thesis by auto
    qed
  next
    case False
    then have runs: "mutating_runs (x # s) = mutating_runs s"
      unfolding x by (simp add: mutating_runs_Cons)
    show ?thesis
    proof (cases "e = Lock \<or> e = Unlock")
      case True
      then show ?thesis
      proof
        assume e: "e = Lock"
        with step have q: "st t = Free" "q' = Held" by (cases "st t"; simp)+
        from e mstep have hh: "h = None" "h' = Some t" by (auto split: if_splits)
        have "\<forall>u \<in> set (mutating_runs s). st u \<noteq> Released"
        proof
          fix u assume "u \<in> set (mutating_runs s)"
          with r' have "?st u \<noteq> Released" by blast
          with q show "st u \<noteq> Released" by (cases "u = t") auto
        qed
        with d' hh runs show ?thesis by simp
      next
        assume e: "e = Unlock"
        with step have q: "st t = Held" "q' = Released" by (cases "st t"; simp)+
        from e mstep have hh: "h = Some t" "h' = None" by (auto split: if_splits)
        from r' q have notin: "t \<notin> set (mutating_runs s)" by auto
        have "\<forall>u \<in> set (mutating_runs s). st u \<noteq> Released"
        proof
          fix u assume u: "u \<in> set (mutating_runs s)"
          with r' have "?st u \<noteq> Released" by blast
          with u notin show "st u \<noteq> Released" by (cases "u = t") auto
        qed
        with d' hh notin runs show ?thesis by simp
      qed
    next
      case nl: False
      then have ne: "e \<noteq> Lock" "e \<noteq> Unlock" by simp_all
      from quiet_mutex[OF ne] mstep have h': "h' = h" by simp
      from quiet_step[OF False ne step] have same: "?st = st" by auto
      from r' have r: "\<forall>u \<in> set (mutating_runs s). st u \<noteq> Released"
        unfolding same .
      with d' f' h' runs show ?thesis by simp
    qed
  qed
qed

lemma disciplined_serialised:
  assumes "\<forall>t. discipline Free (events_of t s) \<noteq> None" and "mutex_run None s"
  shows "serialised s"
proof -
  have "\<forall>u. ((\<lambda>u. Free) u = Held) = (None = Some u)" by simp
  from serial_invariant[OF this assms(1) assms(2)] show ?thesis
    by (simp add: serialised_def)
qed

lemma discipline_prefix:
  "prefix xs ys \<Longrightarrow> discipline q ys \<noteq> None \<Longrightarrow> discipline q xs \<noteq> None"
  by (auto simp: prefix_def discipline_append split: option.splits)

lemma example_update_events:
  "events (resourceVirtualNetworkPeeringUpdate example_meta found_get succeeded_reply
             found_get example_data) = events_of 0 example_schedule"
  by (simp add: resourceVirtualNetworkPeeringUpdate_def example_meta_def found_get_def
        succeeded_reply_def example_data_def locked_def after_def changed_properties_def
        example_properties_def resourceVirtualNetworkPeeringRead_def example_schedule_def
        events_of_def Let_def)

lemma example_create:
  "\<exists>r. resourceVirtualNetworkPeeringCreate example_wait example_meta not_found_get
          flaky_replies 1800 found_get example_data = Some r
       \<and> events r = events_of 1 example_schedule"
proof -
  have w: "example_wait (peering_conf flaky_replies 1800) = Some (Reached ''Succeeded'', 3)"
    unfolding example_wait_def wait_from_start_def flaky_wait by simp
  have up: "[0..<3] = [0, 1, 2]" by (simp add: upt_rec)
  show ?thesis
    by (simp add: resourceVirtualNetworkPeeringCreate_def w example_meta_def not_found_get_def
        example_data_def example_vnet_def locked_def after_def up refresh_events_def
        flaky_replies_def connection_reset_reply_def succeeded_reply_def
        resourceVirtualNetworkPeeringRead_def found_get_def example_properties_def
        example_schedule_def events_of_def example_model_def Let_def SetId_def)
qed

text \<open>
  With the wait loop of the model, whose minimum poll interval is positive, Create always
  returns, and so always reaches its unlock.
\<close>

lemma Create_returns:
  "\<exists>r. resourceVirtualNetworkPeeringCreate (wait_from_start latency) m existing
          replies remaining refreshed d = Some r"
proof -
  have "0 < MinTimeout (peering_conf replies remaining)"
    by (simp add: peering_conf_def)
  from WaitForState_total[OF this, of latency 0 "[]"]
  obtain res issued where
    "WaitForState (peering_conf replies remaining) latency 0 [] = Some (res, issued)"
    by (metis surj_pair)
  then have "wait_from_start latency (peering_conf replies remaining)
      = Some (res, length issued)"
    by (simp add: wait_from_start_def)
  then show ?thesis
    by (simp add: resourceVirtualNetworkPeeringCreate_def Let_def split: sum.splits)
qed


text \<open>
  C5: every call of Create, Update and Delete keeps the lock discipline: it takes
  \<^verbatim>\<open>peerMutex\<close> before its first remote-mutating request and before it waits for
  completion, holds it for all of them, and on every path on which it returns it has
  either never taken the mutex or released it exactly once, as the last thing it does.
  Hence, in every schedule of concurrent calls (finished or still running) that the mutex
  allows, the remote-mutating requests of the calls do not interleave.
\<close>

theorem peerMutex_serialises:
  "(peering_call evs \<longrightarrow> lock_disciplined evs)
   \<and> ((\<forall>t \<in> fst ` set s. \<exists>call. peering_call call \<and> prefix (events_of t s) call)
        \<and> mutex_run None s \<longrightarrow> serialised s)"
proof (intro conjI impI)
  assume "peering_call evs"
  then show "lock_disciplined evs" by (rule peering_call_disciplined)
next
  assume a: "(\<forall>t \<in> fst ` set s. \<exists>call. peering_call call \<and> prefix (events_of t s) call)
        \<and> mutex_run None s"
  have "\<forall>t. discipline Free (events_of t s) \<noteq> None"
  proof
    fix t
    show "discipline Free (events_of t s) \<noteq> None"
    proof (cases "t \<in> fst ` set s")
      case True
      with a obtain call where c: "peering_call call" "prefix (events_of t s) call" by blast
      from peering_call_disciplined[OF c(1)] have "discipline Free call \<noteq> None"
        by (auto simp: lock_disciplined_def)
      with c(2) show ?thesis by (rule discipline_prefix)
    next
      case False
      then have "events_of t s = []"
        by (auto simp: events_of_def filter_empty_conv image_iff)
      then show ?thesis by simp
    qed
  qed
  with a show "serialised s" by (simp add: disciplined_serialised)
qed

theorem peerMutex_serialises_witness:
  "peering_call (events_of 0 example_schedule)
   \<and> lock_disciplined (events_of 0 example_schedule)
   \<and> peering_call (events_of 1 example_schedule)
   \<and> mutex_run None example_schedule
   \<and> mutating_runs example_schedule = [0, 1]
   \<and> serialised example_schedule"
proof -
  note inst = peerMutex_serialises[of "events_of 0 example_schedule" example_schedule]
  have p0: "peering_call (events_of 0 example_schedule)"
    using peering_call.Update[of example_meta found_get succeeded_reply found_get example_data]
    unfolding example_update_events .
  from example_create obtain r where
    r: "resourceVirtualNetworkPeeringCreate example_wait example_meta not_found_get
          flaky_replies 1800 found_get example_data = Some r"
    and ev: "events r = events_of 1 example_schedule" by blast
  have p1: "peering_call (events_of 1 example_schedule)"
    using peering_call.Create[OF r] unfolding ev .
  have m: "mutex_run None example_schedule"
    by (simp add: example_schedule_def)
  have threads: "fst ` set example_schedule = {0, 1}"
    by (auto simp: example_schedule_def)
  have calls: "\<forall>t \<in> fst ` set example_schedule.
      \<exists>call. peering_call call \<and> prefix (events_of t example_schedule) call"
    unfolding threads using p0 p1 by auto
  have d0: "lock_disciplined (events_of 0 example_schedule)"
    by (rule mp[OF conjunct1[OF inst] p0])
  have ser: "serialised example_schedule"
    by (rule mp[OF conjunct2[OF inst] conjI[OF calls m]])
  have runs: "mutating_runs example_schedule = [0, 1]"
    by (simp add: mutating_runs_def example_schedule_def)
  show ?thesis
    by (rule conjI[OF p0 conjI[OF d0 conjI[OF p1 conjI[OF m conjI[OF runs ser]]]]])
qed

end
